theory Spec2Isabelle
  imports Main "HOL-Library.Sublist" "HOL-Library.Multiset" "HOL-Library.Char_ord"
    "HOL-Library.List_Lexorder"
begin

section \<open>Strings: the Go standard-library functions the commands use\<close>

text \<open>
  A Go \<^verbatim>\<open>string\<close> is a sequence of bytes, and so is a HOL \<^typ>\<open>string\<close>.
  The functions of this section are those of packages \<^verbatim>\<open>strings\<close> and
  \<^verbatim>\<open>path/filepath\<close> that \<^verbatim>\<open>internal/cmd/push.go\<close> calls, on a Unix
  system (path separator \<^verbatim>\<open>/\<close>, no volume names).
\<close>

definition newline :: char where
  "newline = CHR 0x0A"

definition dquote :: char where
  "dquote = CHR 0x22"

definition squote :: char where
  "squote = CHR 0x27"

text \<open>\<^verbatim>\<open>strings.Split(s, sep)\<close> for a one-byte separator: the pieces between the
  separators, so that a text of \<open>n\<close> separators has \<open>n + 1\<close> pieces.\<close>

fun split :: "char \<Rightarrow> string \<Rightarrow> string list" where
  "split sep [] = [[]]"
| "split sep (c # cs) =
     (if c = sep then [] # split sep cs
      else (case split sep cs of [] \<Rightarrow> [[c]] | l # ls \<Rightarrow> (c # l) # ls))"

text \<open>The six ASCII bytes of \<^verbatim>\<open>unicode.IsSpace\<close>: tab, line feed, vertical tab,
  form feed, carriage return, space.\<close>

definition asciiSpace :: "char \<Rightarrow> bool" where
  "asciiSpace c \<longleftrightarrow> c \<in> {CHR 0x09, CHR 0x0A, CHR 0x0B, CHR 0x0C, CHR 0x0D, CHR 0x20}"

text \<open>The UTF-8 encodings of the other runes of \<^verbatim>\<open>unicode.IsSpace\<close>: U+0085, U+00A0,
  U+1680, U+2000 to U+200A, U+2028, U+2029, U+202F, U+205F, U+3000.\<close>

definition unicodeSpaces :: "string list" where
  "unicodeSpaces =
     [[CHR 0xC2, CHR 0x85], [CHR 0xC2, CHR 0xA0], [CHR 0xE1, CHR 0x9A, CHR 0x80],
      [CHR 0xE2, CHR 0x80, CHR 0x80], [CHR 0xE2, CHR 0x80, CHR 0x81],
      [CHR 0xE2, CHR 0x80, CHR 0x82], [CHR 0xE2, CHR 0x80, CHR 0x83],
      [CHR 0xE2, CHR 0x80, CHR 0x84], [CHR 0xE2, CHR 0x80, CHR 0x85],
      [CHR 0xE2, CHR 0x80, CHR 0x86], [CHR 0xE2, CHR 0x80, CHR 0x87],
      [CHR 0xE2, CHR 0x80, CHR 0x88], [CHR 0xE2, CHR 0x80, CHR 0x89],
      [CHR 0xE2, CHR 0x80, CHR 0x8A], [CHR 0xE2, CHR 0x80, CHR 0xA8],
      [CHR 0xE2, CHR 0x80, CHR 0xA9], [CHR 0xE2, CHR 0x80, CHR 0xAF],
      [CHR 0xE2, CHR 0x81, CHR 0x9F], [CHR 0xE3, CHR 0x80, CHR 0x80]]"

text \<open>The width in bytes of the white-space rune that \<open>s\<close> starts with, \<open>0\<close> when
  it starts with none. An invalid or overlong encoding decodes to the replacement rune,
  which is no space, so only the encodings above count.\<close>

definition spaceWidth :: "string \<Rightarrow> nat" where
  "spaceWidth s =
     (if s = [] then 0
      else if asciiSpace (hd s) then 1
      else if 2 \<le> length s \<and> take 2 s \<in> set unicodeSpaces then 2
      else if 3 \<le> length s \<and> take 3 s \<in> set unicodeSpaces then 3
      else 0)"

lemma spaceWidth_le: "spaceWidth s \<le> length s"
  by (cases s) (auto simp: spaceWidth_def)

function trimLeftSpace :: "string \<Rightarrow> string" where
  "trimLeftSpace s = (if spaceWidth s = 0 then s else trimLeftSpace (drop (spaceWidth s) s))"
  by pat_completeness auto
termination
proof (relation "measure length")
  show "wf (measure length)" by simp
next
  fix s :: string
  assume "spaceWidth s \<noteq> 0"
  moreover have "spaceWidth s \<le> length s" by (rule spaceWidth_le)
  ultimately show "(drop (spaceWidth s) s, s) \<in> measure length" by simp
qed

declare trimLeftSpace.simps [simp del]

text \<open>The width of the white-space rune that \<open>s\<close> ends with: the backward decoder of
  \<^verbatim>\<open>unicode/utf8\<close> accepts a rune exactly when its encoding is a suffix.\<close>

definition lastSpaceWidth :: "string \<Rightarrow> nat" where
  "lastSpaceWidth s =
     (if s = [] then 0
      else if asciiSpace (last s) then 1
      else if 2 \<le> length s \<and> drop (length s - 2) s \<in> set unicodeSpaces then 2
      else if 3 \<le> length s \<and> drop (length s - 3) s \<in> set unicodeSpaces then 3
      else 0)"

lemma lastSpaceWidth_le: "lastSpaceWidth s \<le> length s"
  by (cases s) (auto simp: lastSpaceWidth_def)

function trimRightSpace :: "string \<Rightarrow> string" where
  "trimRightSpace s =
     (if lastSpaceWidth s = 0 then s
      else trimRightSpace (take (length s - lastSpaceWidth s) s))"
  by pat_completeness auto
termination
proof (relation "measure length")
  show "wf (measure length)" by simp
next
  fix s :: string
  assume "lastSpaceWidth s \<noteq> 0"
  moreover have "lastSpaceWidth s \<le> length s" by (rule lastSpaceWidth_le)
  ultimately show "(take (length s - lastSpaceWidth s) s, s) \<in> measure length" by simp
qed

declare trimRightSpace.simps [simp del]

text \<open>\<^verbatim>\<open>strings.TrimSpace\<close>: leading white space goes first, then trailing.\<close>

definition TrimSpace :: "string \<Rightarrow> string" where
  "TrimSpace s = trimRightSpace (trimLeftSpace s)"

text \<open>\<^verbatim>\<open>strings.TrimRight(s, "\n")\<close>: every trailing line feed removed.\<close>

definition TrimRightNewline :: "string \<Rightarrow> string" where
  "TrimRightNewline s = rev (dropWhile (\<lambda>c. c = newline) (rev s))"

text \<open>\<^verbatim>\<open>strings.HasPrefix(s, p)\<close> and \<^verbatim>\<open>strings.TrimPrefix(s, p)\<close>.\<close>

definition HasPrefix :: "string \<Rightarrow> string \<Rightarrow> bool" where
  "HasPrefix s p \<longleftrightarrow> take (length p) s = p"

definition TrimPrefix :: "string \<Rightarrow> string \<Rightarrow> string" where
  "TrimPrefix s p = (if HasPrefix s p then drop (length p) s else s)"

text \<open>\<^verbatim>\<open>filepath.Base\<close> on Unix: trailing slashes are stripped, the last element is
  kept; the empty path is \<^verbatim>\<open>.\<close> and a path of slashes only is \<^verbatim>\<open>/\<close>.\<close>

definition Base :: "string \<Rightarrow> string" where
  "Base path =
     (if path = [] then ''.''
      else
        let stripped = rev (dropWhile (\<lambda>c. c = CHR ''/'') (rev path));
            element = rev (takeWhile (\<lambda>c. c \<noteq> CHR ''/'') (rev stripped))
        in if element = [] then ''/'' else element)"

section \<open>Environment names and the dotenv parser\<close>

definition deriveEnvFromFile :: "string \<Rightarrow> string" where
  "deriveEnvFromFile file =
     (let base = Base file in
      if base = ''.env'' then ''development''
      else if HasPrefix base ''.env.'' then TrimPrefix base ''.env.''
      else ''development'')"

text \<open>A Go \<^verbatim>\<open>map[string]string\<close> is a finite map from keys to values.\<close>

type_synonym secrets = "string \<rightharpoonup> string"

text \<open>One round of the loop of \<^verbatim>\<open>parseEnvContent\<close>: the entry the line stores, or
  \<open>None\<close> where the loop goes on to the next line without storing.\<close>

definition stripQuotes :: "string \<Rightarrow> string" where
  "stripQuotes v =
     (if 2 \<le> length v then
        if (v ! 0 = dquote \<and> v ! (length v - 1) = dquote) \<or>
           (v ! 0 = squote \<and> v ! (length v - 1) = squote)
        then take (length v - 1 - 1) (drop 1 v)
        else v
      else v)"

definition parseEnvLine :: "string \<Rightarrow> (string \<times> string) option" where
  "parseEnvLine raw =
     (let line = TrimSpace raw in
      if line = [] \<or> HasPrefix line ''#'' then None
      else if CHR ''='' \<notin> set line then None
      else
        let key = TrimSpace (takeWhile (\<lambda>c. c \<noteq> CHR ''='') line);
            v = stripQuotes (drop 1 (dropWhile (\<lambda>c. c \<noteq> CHR ''='') line))
        in if key \<noteq> [] then Some (key, v) else None)"

definition storeLine :: "secrets \<Rightarrow> string \<Rightarrow> secrets" where
  "storeLine result raw =
     (case parseEnvLine raw of None \<Rightarrow> result | Some (key, v) \<Rightarrow> result(key \<mapsto> v))"

definition parseEnvContent :: "string \<Rightarrow> secrets" where
  "parseEnvContent content = foldl storeLine Map.empty (split newline content)"

section \<open>Diffs between the local file and the vault\<close>

text \<open>
  The order in which a Go \<^verbatim>\<open>range\<close> loop visits the entries of a map is not
  specified and may change from one loop to the next. Each loop over a map therefore
  takes the sequence of entries it visits as an argument, and \<open>ranges m kvs\<close> says that
  \<open>kvs\<close> is such a sequence for the map \<open>m\<close>: every entry of \<open>m\<close>, once.
\<close>

type_synonym visit = "(string \<times> string) list"

definition ranges :: "secrets \<Rightarrow> visit \<Rightarrow> bool" where
  "ranges m kvs \<longleftrightarrow> distinct (map fst kvs) \<and> map_of kvs = m"

record pushDiff =
  added :: "string list"
  changed :: "string list"
  removed :: "string list"

definition pushDiff_hasChanges :: "pushDiff \<Rightarrow> bool" where
  "pushDiff_hasChanges d \<longleftrightarrow>
     length (pushDiff.added d) > 0 \<or> length (pushDiff.changed d) > 0 \<or>
     length (pushDiff.removed d) > 0"

text \<open>The bodies of the two loops of \<^verbatim>\<open>calculatePushDiff\<close>, then the function: the
  first loop visits \<open>local\<close> in the order \<open>localVisit\<close>, the second visits \<open>vault\<close> in
  the order \<open>vaultVisit\<close>.\<close>

definition pushLocalStep :: "secrets \<Rightarrow> pushDiff \<Rightarrow> string \<times> string \<Rightarrow> pushDiff" where
  "pushLocalStep vault diff entry =
     (case entry of (key, localVal) \<Rightarrow>
        (case vault key of
           Some vaultVal \<Rightarrow>
             if localVal \<noteq> vaultVal
             then diff\<lparr>pushDiff.changed := pushDiff.changed diff @ [key]\<rparr>
             else diff
         | None \<Rightarrow> diff\<lparr>pushDiff.added := pushDiff.added diff @ [key]\<rparr>))"

definition pushVaultStep :: "secrets \<Rightarrow> pushDiff \<Rightarrow> string \<times> string \<Rightarrow> pushDiff" where
  "pushVaultStep local diff entry =
     (case entry of (key, _) \<Rightarrow>
        (case local key of
           None \<Rightarrow> diff\<lparr>pushDiff.removed := pushDiff.removed diff @ [key]\<rparr>
         | Some _ \<Rightarrow> diff))"

definition calculatePushDiff :: "visit \<Rightarrow> visit \<Rightarrow> secrets \<Rightarrow> secrets \<Rightarrow> pushDiff" where
  "calculatePushDiff localVisit vaultVisit local vault =
     foldl (pushVaultStep local)
       (foldl (pushLocalStep vault)
          \<lparr>pushDiff.added = [], changed = [], removed = []\<rparr> localVisit)
       vaultVisit"

record secretsDiff =
  added :: "string list"
  changed :: "string list"
  localOnly :: "string list"
  unchanged :: "string list"

definition secretsDiff_hasChanges :: "secretsDiff \<Rightarrow> bool" where
  "secretsDiff_hasChanges d \<longleftrightarrow>
     length (secretsDiff.added d) > 0 \<or> length (secretsDiff.changed d) > 0 \<or>
     length (localOnly d) > 0"

text \<open>The two loops of \<^verbatim>\<open>calculateDiff\<close>: the first visits \<open>vault\<close>, the second
  \<open>local\<close>.\<close>

definition diffVaultStep :: "secrets \<Rightarrow> secretsDiff \<Rightarrow> string \<times> string \<Rightarrow> secretsDiff" where
  "diffVaultStep local diff entry =
     (case entry of (key, vaultVal) \<Rightarrow>
        (case local key of
           Some localVal \<Rightarrow>
             if localVal \<noteq> vaultVal
             then diff\<lparr>secretsDiff.changed := secretsDiff.changed diff @ [key]\<rparr>
             else diff\<lparr>unchanged := unchanged diff @ [key]\<rparr>
         | None \<Rightarrow> diff\<lparr>secretsDiff.added := secretsDiff.added diff @ [key]\<rparr>))"

definition diffLocalStep :: "secrets \<Rightarrow> secretsDiff \<Rightarrow> string \<times> string \<Rightarrow> secretsDiff" where
  "diffLocalStep vault diff entry =
     (case entry of (key, _) \<Rightarrow>
        (case vault key of
           None \<Rightarrow> diff\<lparr>localOnly := localOnly diff @ [key]\<rparr>
         | Some _ \<Rightarrow> diff))"

definition calculateDiff :: "visit \<Rightarrow> visit \<Rightarrow> secrets \<Rightarrow> secrets \<Rightarrow> secretsDiff" where
  "calculateDiff vaultVisit localVisit local vault =
     foldl (diffLocalStep vault)
       (foldl (diffVaultStep local)
          \<lparr>secretsDiff.added = [], changed = [], localOnly = [], unchanged = []\<rparr>
          vaultVisit)
       localVisit"

text \<open>The buckets of a diff, and those of them that list a key.\<close>

definition pushBuckets :: "pushDiff \<Rightarrow> string list list" where
  "pushBuckets d = [pushDiff.added d, pushDiff.changed d, pushDiff.removed d]"

definition pullBuckets :: "secretsDiff \<Rightarrow> string list list" where
  "pullBuckets d = [secretsDiff.added d, secretsDiff.changed d, localOnly d, unchanged d]"

definition bucketsOf :: "string \<Rightarrow> string list list \<Rightarrow> string list list" where
  "bucketsOf key buckets = filter (\<lambda>bucket. key \<in> set bucket) buckets"

section \<open>Merging on pull\<close>

text \<open>\<^verbatim>\<open>mergeSecrets\<close>: the loop visits \<open>local\<close> in the order \<open>localVisit\<close> and keeps
  one line \<^verbatim>\<open>key=value\<close> for each entry whose key the vault lacks.\<close>

definition mergeLocalStep :: "secrets \<Rightarrow> string list \<Rightarrow> string \<times> string \<Rightarrow> string list" where
  "mergeLocalStep vault localOnlyLines entry =
     (case entry of (key, v) \<Rightarrow>
        (case vault key of
           None \<Rightarrow> localOnlyLines @ [key @ ''='' @ v]
         | Some _ \<Rightarrow> localOnlyLines))"

definition mergeSecrets :: "visit \<Rightarrow> string \<Rightarrow> secrets \<Rightarrow> secrets \<Rightarrow> string" where
  "mergeSecrets localVisit vaultContent local vault =
     (let result = TrimRightNewline vaultContent;
          localOnlyLines = foldl (mergeLocalStep vault) [] localVisit
      in if length localOnlyLines > 0
         then foldl (\<lambda>result line. result @ line @ [newline])
                (result @ ''\<newline>\<newline># Local variables (not in vault)\<newline>'') localOnlyLines
         else result @ ''\<newline>'')"

text \<open>For stating what \<^const>\<open>mergeSecrets\<close> appends: the entries of the visit whose
  key the vault lacks, in the order of the visit.\<close>

definition localOnlyEntries :: "visit \<Rightarrow> secrets \<Rightarrow> visit" where
  "localOnlyEntries localVisit vault = filter (\<lambda>(k, v). vault k = None) localVisit"

text \<open>\<^verbatim>\<open>countEnvLines\<close>: the lines that are neither blank nor comments; first the
  test of its loop, then the count.\<close>

definition countedLine :: "string \<Rightarrow> bool" where
  "countedLine raw \<longleftrightarrow> (let line = TrimSpace raw in line \<noteq> [] \<and> \<not> HasPrefix line ''#'')"

definition countEnvLines :: "string \<Rightarrow> nat" where
  "countEnvLines content = length (filter countedLine (split newline content))"

section \<open>The commands and their collaborators\<close>

text \<open>
  \<^verbatim>\<open>runPush\<close> and \<^verbatim>\<open>runPull\<close> talk to the terminal, the file system, git, the
  login state, the vault and the telemetry. Their model takes the answers of these
  collaborators from a \<open>world\<close> and returns the error of the command (\<open>None\<close> for
  \<^verbatim>\<open>nil\<close>) together with the trace of the calls it made, in order.
\<close>

text \<open>\<^verbatim>\<open>*api.APIError\<close>: the status code, the text of its \<^verbatim>\<open>Error()\<close> method and
  the upgrade URL. An \<^verbatim>\<open>error\<close> is one made by \<^verbatim>\<open>fmt.Errorf\<close>, an API error, or any
  other error value, known by its text.\<close>

record apiError =
  statusCode :: int
  errorText :: string
  upgradeURL :: string

datatype error = Errorf string | APIError apiError | OtherError string

fun errorString :: "error \<Rightarrow> string" where
  "errorString (Errorf s) = s"
| "errorString (APIError a) = errorText a"
| "errorString (OtherError s) = s"

record pushStats =
  created :: int
  updated :: int
  deleted :: int

record pushResponse =
  respMessage :: string
  respStats :: "pushStats option"

text \<open>Text shown on the terminal: plain strings and the strings that package
  \<^verbatim>\<open>ui\<close> styles (\<^verbatim>\<open>ui.File\<close>, \<^verbatim>\<open>ui.Value\<close>, \<^verbatim>\<open>ui.Link\<close>, \<^verbatim>\<open>ui.Dim\<close>), kept apart
  since the styling is not part of the commands.\<close>

datatype frag = Plain string | File string | Value string | ValueInt int | Link string | Dim string

type_synonym styled = "frag list"

datatype payload = PString string | PInt int

datatype trackEvent = EventPush | EventPull | EventError | EventUpgradePrompt

datatype event =
    Intro string | Warn styled | Success styled | UiError styled | Message styled
  | Step styled | Info styled | Outro styled
  | DiffAdded string | DiffChanged string | DiffRemoved string | DiffKept string
  | Confirm string | Select string "string list" | Spin string
  | CheckEnvGitignore | AddEnvToGitignore
  | ReadDir string | ReadFile string | WriteFile string string nat
  | DetectRepo | EnsureLogin
  | PullSecrets string string | PushSecrets string string secrets
  | Track trackEvent "(string \<times> payload) list"

text \<open>The answers of the collaborators. \<open>confirm\<close> is the boolean that \<^verbatim>\<open>ui.Confirm\<close>
  returns for a prompt (the commands drop its error) and \<open>select\<close> the result of
  \<^verbatim>\<open>ui.Select\<close>; \<open>readDir\<close> lists names with their \<^verbatim>\<open>IsDir\<close> flag;
  \<open>ensureLogin\<close> is the token or the error of \<^verbatim>\<open>EnsureLogin\<close>; \<open>pullSecrets\<close> and
  \<open>pushSecrets\<close> take the token, the repository and the environment, and
  \<open>pullSecrets\<close> returns the \<^verbatim>\<open>Content\<close> of the response; \<open>filepathJoin\<close> is
  \<^verbatim>\<open>filepath.Join\<close>, whose result only names the file a pull reads and writes.
  \<^verbatim>\<open>ui.Spin\<close> is taken to show its message, run the function it is given once and
  return that function's error. The five visits are the orders in which the five
  \<^verbatim>\<open>range\<close> loops over maps run in this invocation.\<close>

record world =
  checkEnvGitignore :: bool
  addEnvToGitignore :: "error option"
  isInteractive :: bool
  confirm :: "string \<Rightarrow> bool"
  select :: "string \<Rightarrow> string list \<Rightarrow> error + string"
  readDir :: "string \<Rightarrow> error + (string \<times> bool) list"
  readFile :: "string \<Rightarrow> error + string"
  writeFile :: "string \<Rightarrow> string \<Rightarrow> error option"
  filepathJoin :: "string \<Rightarrow> string \<Rightarrow> string"
  detectRepo :: "error + string"
  ensureLogin :: "error + string"
  pullSecrets :: "string \<Rightarrow> string \<Rightarrow> string \<Rightarrow> error + string"
  pushSecrets :: "string \<Rightarrow> string \<Rightarrow> string \<Rightarrow> secrets \<Rightarrow> error + pushResponse"
  pushLocalVisit :: visit
  pushVaultVisit :: visit
  diffVaultVisit :: visit
  diffLocalVisit :: visit
  mergeLocalVisit :: visit

text \<open>The flags of the two commands (\<^verbatim>\<open>--env\<close>, \<^verbatim>\<open>--file\<close>, \<^verbatim>\<open>--yes\<close>, and
  \<^verbatim>\<open>--force\<close> for pull).\<close>

record flags =
  flagEnv :: string
  flagFile :: string
  flagYes :: bool
  flagForce :: bool

type_synonym outcome = "event list \<times> error option"

definition emit :: "event list \<Rightarrow> outcome \<Rightarrow> outcome" where
  "emit es out = (es @ fst out, snd out)"

text \<open>\<^verbatim>\<open>len\<close> of a map, the decimal digits of \<^verbatim>\<open>%d\<close>, the file mode \<^verbatim>\<open>0600\<close>.\<close>

definition len :: "secrets \<Rightarrow> nat" where
  "len m = card (dom m)"

fun digitsOf :: "nat \<Rightarrow> string" where
  "digitsOf n =
     (if n < 10 then [''0123456789'' ! n]
      else digitsOf (n div 10) @ [''0123456789'' ! (n mod 10)])"

declare digitsOf.simps [simp del]

definition itoa :: "int \<Rightarrow> string" where
  "itoa i = (if i < 0 then CHR ''-'' # digitsOf (nat (- i)) else digitsOf (nat i))"

definition mode0600 :: nat where
  "mode0600 = 6 * 64"

text \<open>The check of \<^verbatim>\<open>.gitignore\<close> that opens both commands.\<close>

definition gitignoreGuard :: "world \<Rightarrow> event list" where
  "gitignoreGuard w =
     CheckEnvGitignore #
     (if \<not> checkEnvGitignore w then
        Warn [Plain ''.env files are not in .gitignore - secrets may be committed''] #
        (if isInteractive w then
           Confirm ''Add .env* to .gitignore?'' #
           (if confirm w ''Add .env* to .gitignore?'' then
              AddEnvToGitignore #
              (if addEnvToGitignore w = None
               then [Success [Plain ''Added .env* to .gitignore'']] else [])
            else [])
         else [])
      else [])"

record envCandidate =
  candFile :: string
  candEnv :: string

definition excludeFiles :: "string \<Rightarrow> bool" where
  "excludeFiles name \<longleftrightarrow>
     name \<in> {''.env.local'', ''.env.example'', ''.env.sample'', ''.env.template''}"

definition discoverEnvFiles :: "world \<Rightarrow> envCandidate list" where
  "discoverEnvFiles w =
     (case readDir w ''.'' of
        Inl err \<Rightarrow> []
      | Inr entries \<Rightarrow>
          map (\<lambda>(name, isDir). \<lparr>candFile = name, candEnv = deriveEnvFromFile name\<rparr>)
            (filter (\<lambda>(name, isDir). HasPrefix name ''.env'' \<and> \<not> excludeFiles name \<and> \<not> isDir)
               entries))"

section \<open>The push command\<close>

text \<open>The branch of \<^verbatim>\<open>runPush\<close> for a directory with no env file and no
  \<^verbatim>\<open>--file\<close>.\<close>

definition envTemplate :: string where
  "envTemplate =
     ''# Add your environment variables here\<newline># Example: API_KEY=your-api-key\<newline>''"

definition pushNoEnvFile :: "world \<Rightarrow> outcome" where
  "pushNoEnvFile w =
     (if \<not> isInteractive w then
        ([UiError [Plain ''No .env file found'']], Some (Errorf ''no .env file found''))
      else
        emit [Confirm ''No .env file found. Create one?'']
          (if confirm w ''No .env file found. Create one?'' then
             (case writeFile w ''.env'' envTemplate of
                Some err \<Rightarrow> ([WriteFile ''.env'' envTemplate mode0600], Some err)
              | None \<Rightarrow>
                  ([WriteFile ''.env'' envTemplate mode0600,
                    Success [Plain ''Created .env file''],
                    Message [Dim ''Add your variables and run keyway push again'']], None))
           else ([], None)))"

text \<open>The choice of the file and of the environment: the loop that looks the selected
  option up among the candidates, then the defaults.\<close>

definition applySelection ::
    "envCandidate list \<Rightarrow> string \<Rightarrow> string \<times> string \<Rightarrow> string \<times> string" where
  "applySelection candidates selected fe =
     (case find (\<lambda>c. HasPrefix selected (candFile c)) candidates of
        None \<Rightarrow> fe
      | Some c \<Rightarrow> (candFile c, if snd fe = [] then candEnv c else snd fe))"

definition applyDefaults :: "envCandidate list \<Rightarrow> string \<times> string \<Rightarrow> string \<times> string" where
  "applyDefaults candidates fe =
     (let fe' =
        (if fst fe = [] then
           (case candidates of
              c # _ \<Rightarrow> (candFile c, if snd fe = [] then candEnv c else snd fe)
            | [] \<Rightarrow> (''.env'', snd fe))
         else fe)
      in (fst fe', if snd fe' = [] then deriveEnvFromFile (fst fe') else snd fe'))"

definition chooseFile ::
    "world \<Rightarrow> flags \<Rightarrow> envCandidate list \<Rightarrow> event list \<times> (error + string \<times> string)" where
  "chooseFile w fl candidates =
     (if flagFile fl = [] \<and> isInteractive w \<and> length candidates > 1 then
        let options = map (\<lambda>c. candFile c @ '' (env: '' @ candEnv c @ '')'') candidates in
        (case select w ''Select an env file to push:'' options of
           Inl err \<Rightarrow> ([Select ''Select an env file to push:'' options], Inl err)
         | Inr selected \<Rightarrow>
             ([Select ''Select an env file to push:'' options],
              Inr (applyDefaults candidates
                     (applySelection candidates selected (flagFile fl, flagEnv fl)))))
      else ([], Inr (applyDefaults candidates (flagFile fl, flagEnv fl))))"

text \<open>\<^verbatim>\<open>strings.Join\<close>, and the statistics line of a push.\<close>

fun Join :: "string list \<Rightarrow> string \<Rightarrow> string" where
  "Join [] sep = []"
| "Join [x] sep = x"
| "Join (x # y # ys) sep = x @ sep @ Join (y # ys) sep"

definition statsParts :: "pushStats \<Rightarrow> string list" where
  "statsParts st =
     (if created st > 0 then [''+'' @ itoa (created st) @ '' created''] else []) @
     (if updated st > 0 then [''~'' @ itoa (updated st) @ '' updated''] else []) @
     (if deleted st > 0 then [''-'' @ itoa (deleted st) @ '' deleted''] else [])"

definition statsMessage :: "pushResponse \<Rightarrow> event list" where
  "statsMessage resp =
     (case respStats resp of
        None \<Rightarrow> []
      | Some st \<Rightarrow>
          if length (statsParts st) > 0
          then [Message [Plain (''Stats: '' @ Join (statsParts st) '', '')]] else [])"

text \<open>The rest of \<^verbatim>\<open>runPush\<close>, last step first: upload, confirmation, preview of
  the diff, fetch of the vault, repository and login, reading the file.\<close>

definition pushUpload ::
    "world \<Rightarrow> string \<Rightarrow> secrets \<Rightarrow> string \<Rightarrow> string \<Rightarrow> outcome" where
  "pushUpload w env secrets repo token =
     emit [Track EventPush [(''repoFullName'', PString repo), (''environment'', PString env),
                            (''variableCount'', PInt (int (len secrets)))],
           Spin ''Uploading secrets...'', PushSecrets repo env secrets]
       (case pushSecrets w token repo env secrets of
          Inl err \<Rightarrow>
            (Track EventError [(''command'', PString ''push''),
                               (''error'', PString (errorString err))] #
             (case err of
                APIError apiErr \<Rightarrow>
                  UiError [Plain (errorText apiErr)] #
                  (if upgradeURL apiErr \<noteq> [] then
                     [Track EventUpgradePrompt [(''reason'', PString ''push_error''),
                                                (''command'', PString ''push'')],
                      Message [Plain ''Upgrade: '', Link (upgradeURL apiErr)]]
                   else [])
              | _ \<Rightarrow> [UiError [Plain (errorString err)]]),
             Some err)
        | Inr resp \<Rightarrow>
            (Success [Plain (respMessage resp)] # statsMessage resp @
             [Outro [Plain ''Dashboard: '',
                     Link (''https://www.keyway.sh/dashboard/vaults/'' @ repo)]],
             None))"

definition pushConfirm ::
    "world \<Rightarrow> bool \<Rightarrow> string \<Rightarrow> string \<Rightarrow> secrets \<Rightarrow> string \<Rightarrow> string \<Rightarrow> outcome" where
  "pushConfirm w yes file env secrets repo token =
     (let prompt = ''Push '' @ itoa (int (len secrets)) @ '' secrets from '' @ file @
                   '' to '' @ repo @ ''?'' in
      if \<not> yes \<and> isInteractive w then
        emit [Confirm prompt]
          (if \<not> confirm w prompt then ([Warn [Plain ''Push aborted.'']], None)
           else pushUpload w env secrets repo token)
      else if \<not> yes then
        ([], Some (Errorf ''confirmation required - use --yes in non-interactive mode''))
      else pushUpload w env secrets repo token)"

definition pushPreview ::
    "world \<Rightarrow> bool \<Rightarrow> string \<Rightarrow> string \<Rightarrow> secrets \<Rightarrow> string \<Rightarrow> string \<Rightarrow> secrets \<Rightarrow> outcome" where
  "pushPreview w yes file env secrets repo token vaultSecrets =
     (let diff = calculatePushDiff (pushLocalVisit w) (pushVaultVisit w) secrets vaultSecrets in
      emit
        (if pushDiff_hasChanges diff then
           [Message [Plain []], Message [Plain ''Changes:'']] @
           map DiffAdded (pushDiff.added diff) @
           map DiffChanged (pushDiff.changed diff) @
           map DiffRemoved (pushDiff.removed diff) @
           [Message [Plain []]]
         else [Info [Plain ''No changes detected'']])
        (pushConfirm w yes file env secrets repo token))"

definition pushFetch ::
    "world \<Rightarrow> bool \<Rightarrow> string \<Rightarrow> string \<Rightarrow> secrets \<Rightarrow> string \<Rightarrow> string \<Rightarrow> outcome" where
  "pushFetch w yes file env secrets repo token =
     emit [Spin ''Fetching current vault state...'', PullSecrets repo env]
       (case pullSecrets w token repo env of
          Inl err \<Rightarrow>
            (case err of
               APIError apiErr \<Rightarrow>
                 if statusCode apiErr = 404
                 then pushPreview w yes file env secrets repo token Map.empty
                 else ([UiError [Plain (errorText apiErr)]], Some err)
             | _ \<Rightarrow> ([UiError [Plain (errorString err)]], Some err))
        | Inr content \<Rightarrow>
            pushPreview w yes file env secrets repo token (parseEnvContent content))"

definition pushConnect ::
    "world \<Rightarrow> bool \<Rightarrow> string \<Rightarrow> string \<Rightarrow> secrets \<Rightarrow> outcome" where
  "pushConnect w yes file env secrets =
     (case detectRepo w of
        Inl err \<Rightarrow>
          ([DetectRepo, UiError [Plain ''Not in a git repository with GitHub remote'']],
           Some err)
      | Inr repo \<Rightarrow>
          emit [DetectRepo, Step [Plain ''Repository: '', Value repo]]
            (case ensureLogin w of
               Inl err \<Rightarrow> ([EnsureLogin, UiError [Plain (errorString err)]], Some err)
             | Inr token \<Rightarrow>
                 emit [EnsureLogin] (pushFetch w yes file env secrets repo token)))"

definition pushLoad :: "world \<Rightarrow> bool \<Rightarrow> string \<Rightarrow> string \<Rightarrow> outcome" where
  "pushLoad w yes file env =
     (case readFile w file of
        Inl err \<Rightarrow> ([ReadFile file, UiError [Plain (''File not found: '' @ file)]], Some err)
      | Inr content \<Rightarrow>
          emit [ReadFile file]
            (if length (TrimSpace content) = 0 then
               ([UiError [Plain (''File is empty: '' @ file)]], Some (Errorf ''file is empty''))
             else
               let secrets = parseEnvContent content in
               if len secrets = 0 then
                 ([UiError [Plain ''No valid environment variables found in file'']],
                  Some (Errorf ''no variables found''))
               else
                 emit [Step [Plain ''File: '', File file],
                       Step [Plain ''Environment: '', Value env],
                       Step [Plain ''Variables: '', ValueInt (int (len secrets))]]
                   (pushConnect w yes file env secrets)))"

definition runPush :: "world \<Rightarrow> flags \<Rightarrow> outcome" where
  "runPush w fl =
     emit (Intro ''push'' # gitignoreGuard w @ [ReadDir ''.''])
       (let candidates = discoverEnvFiles w in
        if length candidates = 0 \<and> flagFile fl = [] then pushNoEnvFile w
        else
          (case chooseFile w fl candidates of
             (es, Inl err) \<Rightarrow> (es, Some err)
           | (es, Inr (file, env)) \<Rightarrow> emit es (pushLoad w (flagYes fl) file env)))"

section \<open>The pull command\<close>

definition pullShowDiff :: "bool \<Rightarrow> bool \<Rightarrow> secretsDiff \<Rightarrow> event list" where
  "pullShowDiff force localExists diff =
     (if localExists \<and> secretsDiff_hasChanges diff then
        (if length (secretsDiff.added diff) > 0 \<or> length (secretsDiff.changed diff) > 0 then
           [Message [Plain []], Message [Plain ''Changes from vault:'']] @
           map DiffAdded (secretsDiff.added diff) @
           map DiffChanged (secretsDiff.changed diff)
         else []) @
        (if length (localOnly diff) > 0 then
           Message [Plain []] #
           (if \<not> force then
              Message [Plain ''Not in vault (will be preserved):''] #
              map DiffKept (localOnly diff)
            else
              Message [Plain ''Not in vault (will be removed):''] #
              map DiffRemoved (localOnly diff))
         else []) @
        [Message [Plain []]]
      else [])"

definition pullWrite ::
    "world \<Rightarrow> flags \<Rightarrow> string \<Rightarrow> string \<Rightarrow> bool \<Rightarrow> secrets \<Rightarrow> secrets \<Rightarrow> secretsDiff \<Rightarrow> outcome" where
  "pullWrite w fl vaultContent envFilePath localExists localSecrets vaultSecrets diff =
     (let finalContent =
        (if flagForce fl \<or> \<not> localExists then vaultContent
         else mergeSecrets (mergeLocalVisit w) vaultContent localSecrets vaultSecrets) in
      case writeFile w envFilePath finalContent of
        Some err \<Rightarrow>
          ([WriteFile envFilePath finalContent mode0600,
            UiError [Plain (''Failed to write file: '' @ errorString err)]], Some err)
      | None \<Rightarrow>
          ([WriteFile envFilePath finalContent mode0600,
            Success [Plain ''Secrets downloaded to '', File (flagFile fl)],
            Message [Plain ''Variables: '', ValueInt (int (countEnvLines finalContent))]] @
           (if \<not> flagForce fl \<and> length (localOnly diff) > 0 then
              [Message [Plain ''Kept '', ValueInt (int (length (localOnly diff))),
                        Plain '' local-only variables'']]
            else []) @
           [Outro [Plain ''Secrets synced!'']], None))"

definition pullConfirm ::
    "world \<Rightarrow> flags \<Rightarrow> string \<Rightarrow> string \<Rightarrow> bool \<Rightarrow> secrets \<Rightarrow> secrets \<Rightarrow> secretsDiff \<Rightarrow> outcome" where
  "pullConfirm w fl vaultContent envFilePath localExists localSecrets vaultSecrets diff =
     (if localExists then
        if \<not> flagYes fl \<and> isInteractive w then
          let promptMsg =
            (if flagForce fl then ''Replace '' @ flagFile fl @ '' with secrets from vault?''
             else ''Merge secrets from vault into '' @ flagFile fl @ ''?'') in
          emit [Confirm promptMsg]
            (if \<not> confirm w promptMsg then ([Warn [Plain ''Pull aborted.'']], None)
             else pullWrite w fl vaultContent envFilePath localExists localSecrets
                    vaultSecrets diff)
        else if \<not> flagYes fl then
          ([], Some (Errorf (''file '' @ flagFile fl @ '' exists - use --yes to confirm'')))
        else pullWrite w fl vaultContent envFilePath localExists localSecrets vaultSecrets diff
      else pullWrite w fl vaultContent envFilePath localExists localSecrets vaultSecrets diff)"

definition pullCompare :: "world \<Rightarrow> flags \<Rightarrow> string \<Rightarrow> outcome" where
  "pullCompare w fl vaultContent =
     (let vaultSecrets = parseEnvContent vaultContent;
          envFilePath = filepathJoin w ''.'' (flagFile fl);
          localExists = (case readFile w envFilePath of Inr data \<Rightarrow> True | Inl err \<Rightarrow> False);
          localSecrets =
            (case readFile w envFilePath of
               Inr data \<Rightarrow> parseEnvContent data
             | Inl err \<Rightarrow> Map.empty);
          diff = calculateDiff (diffVaultVisit w) (diffLocalVisit w) localSecrets vaultSecrets
      in emit (ReadFile envFilePath # pullShowDiff (flagForce fl) localExists diff)
           (pullConfirm w fl vaultContent envFilePath localExists localSecrets vaultSecrets
              diff))"

definition pullFetch :: "world \<Rightarrow> flags \<Rightarrow> string \<Rightarrow> string \<Rightarrow> outcome" where
  "pullFetch w fl repo token =
     emit [Track EventPull [(''repoFullName'', PString repo),
                            (''environment'', PString (flagEnv fl))],
           Spin ''Downloading secrets...'', PullSecrets repo (flagEnv fl)]
       (case pullSecrets w token repo (flagEnv fl) of
          Inl err \<Rightarrow>
            (Track EventError [(''command'', PString ''pull''),
                               (''error'', PString (errorString err))] #
             (case err of
                APIError apiErr \<Rightarrow>
                  UiError [Plain (errorText apiErr)] #
                  (if upgradeURL apiErr \<noteq> []
                   then [Message [Plain ''Upgrade: '', Link (upgradeURL apiErr)]] else [])
              | _ \<Rightarrow> [UiError [Plain (errorString err)]]),
             Some err)
        | Inr vaultContent \<Rightarrow> pullCompare w fl vaultContent)"

definition runPull :: "world \<Rightarrow> flags \<Rightarrow> outcome" where
  "runPull w fl =
     emit (Intro ''pull'' # gitignoreGuard w @ [Step [Plain ''Environment: '', Value (flagEnv fl)]])
       (case detectRepo w of
          Inl err \<Rightarrow>
            ([DetectRepo, UiError [Plain ''Not in a git repository with GitHub remote'']],
             Some err)
        | Inr repo \<Rightarrow>
            emit [DetectRepo, Step [Plain ''Repository: '', Value repo]]
              (case ensureLogin w of
                 Inl err \<Rightarrow> ([EnsureLogin, UiError [Plain (errorString err)]], Some err)
               | Inr token \<Rightarrow> emit [EnsureLogin] (pullFetch w fl repo token)))"

text \<open>The calls that leave the machine: the vault, the login and the telemetry.\<close>

fun networkCall :: "event \<Rightarrow> bool" where
  "networkCall (PullSecrets repo env) = True"
| "networkCall (PushSecrets repo env secrets) = True"
| "networkCall EnsureLogin = True"
| "networkCall (Track name props) = True"
| "networkCall _ = False"

fun isUpload :: "event \<Rightarrow> bool" where
  "isUpload (PushSecrets repo env secrets) = True"
| "isUpload _ = False"

fun isWrite :: "event \<Rightarrow> bool" where
  "isWrite (WriteFile path content mode) = True"
| "isWrite _ = False"

text \<open>The lines that open the preview of a push: one of them is on the terminal exactly
  when the push has reached its confirmation step.\<close>

definition previewShown :: "event list \<Rightarrow> bool" where
  "previewShown trace \<longleftrightarrow>
     Info [Plain ''No changes detected''] \<in> set trace \<or>
     Message [Plain ''Changes:''] \<in> set trace"

text \<open>What a push without a terminal and without \<^verbatim>\<open>--yes\<close> comes to: no upload, an
  error, and the error of the confirmation step once the preview has been shown.\<close>

definition blocked :: "outcome \<Rightarrow> bool" where
  "blocked out \<longleftrightarrow>
     (\<forall>e \<in> set (fst out). \<not> isUpload e) \<and> snd out \<noteq> None \<and>
     (previewShown (fst out) \<longrightarrow>
        snd out = Some (Errorf ''confirmation required - use --yes in non-interactive mode''))"

section \<open>An example world\<close>

text \<open>A session without a terminal in a repository \<^verbatim>\<open>acme/app\<close> whose directory
  holds \<^verbatim>\<open>.env\<close>, a template and a directory; the vault holds \<^verbatim>\<open>FOO\<close> and
  \<^verbatim>\<open>NEW\<close>, the file \<^verbatim>\<open>FOO\<close> and \<^verbatim>\<open>LOCAL_ONLY\<close>. The concrete runs of the
  theorems below start from it.\<close>

definition exampleWorld :: world where
  "exampleWorld =
     \<lparr>checkEnvGitignore = True,
      addEnvToGitignore = None,
      isInteractive = False,
      confirm = (\<lambda>prompt. True),
      select = (\<lambda>prompt options. Inl (OtherError ''not a terminal'')),
      readDir = (\<lambda>dir. Inr [(''.env'', False), (''.env.example'', False), (''src'', True)]),
      readFile = (\<lambda>path. if path = ''.env'' then Inr ''FOO=1\<newline>LOCAL_ONLY=x\<newline>''
                        else Inl (OtherError ''no such file'')),
      writeFile = (\<lambda>path content. None),
      filepathJoin = (\<lambda>dir name. name),
      detectRepo = Inr ''acme/app'',
      ensureLogin = Inr ''token'',
      pullSecrets = (\<lambda>token repo env. Inr ''FOO=1\<newline>NEW=2\<newline>''),
      pushSecrets = (\<lambda>token repo env secrets.
                       Inr \<lparr>respMessage = ''Secrets pushed'', respStats = None\<rparr>),
      pushLocalVisit = [(''FOO'', ''1''), (''LOCAL_ONLY'', ''x'')],
      pushVaultVisit = [(''FOO'', ''1''), (''NEW'', ''2'')],
      diffVaultVisit = [(''NEW'', ''2''), (''FOO'', ''1'')],
      diffLocalVisit = [(''LOCAL_ONLY'', ''x''), (''FOO'', ''1'')],
      mergeLocalVisit = [(''FOO'', ''1''), (''LOCAL_ONLY'', ''x'')]\<rparr>"

text \<open>The same world with a vault that answers 404 to every fetch.\<close>

definition notFound :: apiError where
  "notFound =
     \<lparr>statusCode = 404, errorText = ''Vault not found'',
      upgradeURL = ''https://keyway.sh/upgrade''\<rparr>"

definition emptyVaultWorld :: world where
  "emptyVaultWorld =
     exampleWorld\<lparr>pullSecrets := (\<lambda>token repo env. Inl (APIError notFound)),
                   pushVaultVisit := []\<rparr>"

text \<open>The defaults of the flags, as the two \<^verbatim>\<open>init\<close> functions declare them.\<close>

definition pushDefaults :: flags where
  "pushDefaults = \<lparr>flagEnv = [], flagFile = [], flagYes = False, flagForce = False\<rparr>"

definition pullDefaults :: flags where
  "pullDefaults =
     \<lparr>flagEnv = ''development'', flagFile = ''.env'', flagYes = False, flagForce = False\<rparr>"

section \<open>The parser: duplicate keys and quotes\<close>

lemmas codec_eval =
  parseEnvContent_def storeLine_def parseEnvLine_def stripQuotes_def TrimSpace_def
  trimLeftSpace.simps trimRightSpace.simps spaceWidth_def lastSpaceWidth_def
  asciiSpace_def unicodeSpaces_def HasPrefix_def TrimPrefix_def newline_def dquote_def
  squote_def

lemma storeLine_other:
  "\<forall>v. parseEnvLine l \<noteq> Some (k, v) \<Longrightarrow> storeLine m l k = m k"
  by (auto simp: storeLine_def split: option.splits)

lemma storeLine_same: "parseEnvLine l = Some (k, v) \<Longrightarrow> storeLine m l k = Some v"
  by (simp add: storeLine_def)

lemma foldl_storeLine_other:
  "\<forall>l \<in> set ls. \<forall>v. parseEnvLine l \<noteq> Some (k, v) \<Longrightarrow> foldl storeLine m ls k = m k"
  by (induction ls arbitrary: m) (simp_all add: storeLine_other)

lemma foldl_storeLine_last:
  assumes "parseEnvLine l = Some (k, v)"
    and "\<forall>l' \<in> set after. \<forall>v'. parseEnvLine l' \<noteq> Some (k, v')"
  shows "foldl storeLine m (before @ l # after) k = Some v"
proof -
  have "foldl storeLine m (before @ l # after) k =
        foldl storeLine (storeLine (foldl storeLine m before) l) after k"
    by simp
  also have "\<dots> = storeLine (foldl storeLine m before) l k"
    using assms(2) by (rule foldl_storeLine_other)
  also have "\<dots> = Some v"
    using assms(1) by (rule storeLine_same)
  finally show ?thesis .
qed

text \<open>
  Claim C7. When several lines of a text store the same key, the map that
  \<^const>\<open>parseEnvContent\<close> returns holds the value of the last of them: a line that
  stores \<open>(k, v)\<close> and is followed by no line storing \<open>k\<close> decides the value of
  \<open>k\<close>, and a key that no line stores is absent. The text of two lines \<^verbatim>\<open>A=1\<close>
  and \<^verbatim>\<open>A=2\<close> parses to the one entry \<open>A \<mapsto> 2\<close>.
\<close>

theorem parseEnvContent_last_occurrence_wins:
  "(\<forall>before l after k v.
      split newline content = before @ l # after \<and> parseEnvLine l = Some (k, v) \<and>
      (\<forall>l' \<in> set after. \<forall>v'. parseEnvLine l' \<noteq> Some (k, v'))
      \<longrightarrow> parseEnvContent content k = Some v) \<and>
   (\<forall>k. (\<forall>l \<in> set (split newline content). \<forall>v. parseEnvLine l \<noteq> Some (k, v))
      \<longrightarrow> parseEnvContent content k = None) \<and>
   parseEnvContent ''A=1\<newline>A=2\<newline>'' = [''A'' \<mapsto> ''2'']"
proof (intro conjI allI impI)
  fix before l after k v
  assume h: "split newline content = before @ l # after \<and> parseEnvLine l = Some (k, v) \<and>
      (\<forall>l' \<in> set after. \<forall>v'. parseEnvLine l' \<noteq> Some (k, v'))"
  then show "parseEnvContent content k = Some v"
    by (simp add: parseEnvContent_def foldl_storeLine_last del: foldl_append foldl_Cons)
next
  fix k
  assume "\<forall>l \<in> set (split newline content). \<forall>v. parseEnvLine l \<noteq> Some (k, v)"
  then show "parseEnvContent content k = None"
    by (simp add: parseEnvContent_def foldl_storeLine_other)
next
  show "parseEnvContent ''A=1\<newline>A=2\<newline>'' = [''A'' \<mapsto> ''2'']"
    by (simp add: codec_eval)
qed

theorem parseEnvContent_last_occurrence_wins_witness:
  "split newline ''A=1\<newline>A=2\<newline>B=3'' = [''A=1''] @ ''A=2'' # [''B=3''] \<and>
   parseEnvLine ''A=1'' = Some (''A'', ''1'') \<and>
   parseEnvLine ''A=2'' = Some (''A'', ''2'') \<and>
   parseEnvLine ''B=3'' = Some (''B'', ''3'') \<and>
   parseEnvContent ''A=1\<newline>A=2\<newline>B=3'' ''A'' = Some ''2'' \<and>
   parseEnvContent ''A=1\<newline>A=2\<newline>B=3'' ''C'' = None"
proof -
  let ?c = "''A=1\<newline>A=2\<newline>B=3''"
  have s: "split newline ?c = [''A=1''] @ ''A=2'' # [''B=3'']"
    by (simp add: newline_def)
  have p1: "parseEnvLine ''A=1'' = Some (''A'', ''1'')"
    and p2: "parseEnvLine ''A=2'' = Some (''A'', ''2'')"
    and p3: "parseEnvLine ''B=3'' = Some (''B'', ''3'')"
    by (simp_all add: codec_eval)
  have later: "\<forall>l' \<in> set [''B=3'']. \<forall>v'. parseEnvLine l' \<noteq> Some (''A'', v')"
    by (simp add: p3)
  have absent: "\<forall>l \<in> set (split newline ?c). \<forall>v. parseEnvLine l \<noteq> Some (''C'', v)"
    unfolding s by (simp add: p1 p2 p3)
  from parseEnvContent_last_occurrence_wins [of ?c] s p2 later
  have a: "parseEnvContent ?c ''A'' = Some ''2''" by blast
  from parseEnvContent_last_occurrence_wins [of ?c] absent
  have c: "parseEnvContent ?c ''C'' = None" by blast
  from s p1 p2 p3 a c show ?thesis by blast
qed

lemma stripQuotes_pair:
  "q = dquote \<or> q = squote \<Longrightarrow> stripQuotes (q # body @ [q]) = body"
  by (auto simp: stripQuotes_def nth_append)

lemma stripQuotes_changes:
  assumes "stripQuotes v \<noteq> v"
  shows "\<exists>q body. (q = dquote \<or> q = squote) \<and> v = q # body @ [q]"
proof -
  from assms have len: "2 \<le> length v"
    and ends: "(v ! 0 = dquote \<and> v ! (length v - 1) = dquote) \<or>
               (v ! 0 = squote \<and> v ! (length v - 1) = squote)"
    by (auto simp: stripQuotes_def split: if_splits)
  define q where "q = hd v"
  define r where "r = tl v"
  from len have v: "v = q # r" and r: "r \<noteq> []"
    unfolding q_def r_def by (cases v; auto)+
  from r have "r = butlast r @ [last r]" by simp
  with v have shape: "v = q # butlast r @ [last r]" by simp
  have "v ! 0 = q" by (simp add: v)
  moreover have "v ! (length v - 1) = last r"
    using r by (simp add: v last_conv_nth)
  ultimately have "(q = dquote \<or> q = squote) \<and> last r = q"
    using ends by (auto simp: dquote_def squote_def)
  with shape show ?thesis by metis
qed

lemma takeWhile_upto_eq: "c \<notin> set pre \<Longrightarrow> takeWhile (\<lambda>x. x \<noteq> c) (pre @ c # v) = pre"
  by (induction pre) auto

lemma dropWhile_upto_eq: "c \<notin> set pre \<Longrightarrow> dropWhile (\<lambda>x. x \<noteq> c) (pre @ c # v) = c # v"
  by (induction pre) auto

lemma parseEnvLine_value:
  assumes "TrimSpace raw = pre @ CHR ''='' # v" and "CHR ''='' \<notin> set pre"
    and "TrimSpace pre \<noteq> []" and "\<not> HasPrefix (TrimSpace raw) ''#''"
  shows "parseEnvLine raw = Some (TrimSpace pre, stripQuotes v)"
  using assms(3,4) assms(2)
  by (simp add: parseEnvLine_def Let_def assms(1) takeWhile_upto_eq dropWhile_upto_eq)

text \<open>
  Claim C8. On a line that stores an entry, the raw value is what follows the first
  \<^verbatim>\<open>=\<close> of the trimmed line. A raw value wrapped in a pair of double quotes or in a
  pair of single quotes, \<open>q # body @ [q]\<close>, is stored as \<open>body\<close>: one layer goes,
  whatever \<open>body\<close> holds (further quotes, backslashes). Every other raw value, one
  whose two ends are not the same quote character (a lone quote character included), is
  stored as it is.
\<close>

theorem parseEnvLine_strips_one_quote_layer:
  "(\<forall>raw pre q body.
      TrimSpace raw = pre @ CHR ''='' # q # body @ [q] \<and> (q = dquote \<or> q = squote) \<and>
      CHR ''='' \<notin> set pre \<and> TrimSpace pre \<noteq> [] \<and> \<not> HasPrefix (TrimSpace raw) ''#''
      \<longrightarrow> parseEnvLine raw = Some (TrimSpace pre, body)) \<and>
   (\<forall>raw pre v.
      TrimSpace raw = pre @ CHR ''='' # v \<and>
      \<not> (\<exists>q body. (q = dquote \<or> q = squote) \<and> v = q # body @ [q]) \<and>
      CHR ''='' \<notin> set pre \<and> TrimSpace pre \<noteq> [] \<and> \<not> HasPrefix (TrimSpace raw) ''#''
      \<longrightarrow> parseEnvLine raw = Some (TrimSpace pre, v)) \<and>
   parseEnvContent ''KEY=\"hello world\"'' = [''KEY'' \<mapsto> ''hello world''] \<and>
   parseEnvContent (''KEY='' @ [squote] @ ''x'' @ [squote]) = [''KEY'' \<mapsto> ''x'']"
proof (intro conjI allI impI)
  fix raw pre q body
  assume h: "TrimSpace raw = pre @ CHR ''='' # q # body @ [q] \<and> (q = dquote \<or> q = squote) \<and>
      CHR ''='' \<notin> set pre \<and> TrimSpace pre \<noteq> [] \<and> \<not> HasPrefix (TrimSpace raw) ''#''"
  then have "parseEnvLine raw = Some (TrimSpace pre, stripQuotes (q # body @ [q]))"
    by (intro parseEnvLine_value) blast+
  moreover from h have "stripQuotes (q # body @ [q]) = body"
    by (intro stripQuotes_pair) blast
  ultimately show "parseEnvLine raw = Some (TrimSpace pre, body)"
    by simp
next
  fix raw pre v
  assume h: "TrimSpace raw = pre @ CHR ''='' # v \<and>
      \<not> (\<exists>q body. (q = dquote \<or> q = squote) \<and> v = q # body @ [q]) \<and>
      CHR ''='' \<notin> set pre \<and> TrimSpace pre \<noteq> [] \<and> \<not> HasPrefix (TrimSpace raw) ''#''"
  then have "stripQuotes v = v"
    using stripQuotes_changes [of v] by blast
  moreover from h have "parseEnvLine raw = Some (TrimSpace pre, stripQuotes v)"
    by (intro parseEnvLine_value) blast+
  ultimately show "parseEnvLine raw = Some (TrimSpace pre, v)"
    by simp
next
  show "parseEnvContent ''KEY=\"hello world\"'' = [''KEY'' \<mapsto> ''hello world'']"
    by (simp add: codec_eval)
next
  show "parseEnvContent (''KEY='' @ [squote] @ ''x'' @ [squote]) = [''KEY'' \<mapsto> ''x'']"
    by (simp add: codec_eval)
qed

theorem parseEnvLine_strips_one_quote_layer_witness:
  "TrimSpace ''NAME=\"\"a\"\"  '' = ''NAME'' @ CHR ''='' # dquote # ''\"a\"'' @ [dquote] \<and>
   parseEnvLine ''NAME=\"\"a\"\"  '' = Some (''NAME'', ''\"a\"'') \<and>
   TrimSpace ''  NAME = \"a=b\"'' = ''NAME '' @ CHR ''='' # '' \"a=b\"'' \<and>
   parseEnvLine ''  NAME = \"a=b\"'' = Some (''NAME'', '' \"a=b\"'') \<and>
   parseEnvLine ''NAME=\"'' = Some (''NAME'', ''\"'')"
proof -
  note stripped = parseEnvLine_strips_one_quote_layer [THEN conjunct1, rule_format]
  note untouched = parseEnvLine_strips_one_quote_layer [THEN conjunct2, THEN conjunct1, rule_format]
  have k: "TrimSpace ''NAME '' = ''NAME''" "TrimSpace ''NAME'' = ''NAME''"
    by (simp_all add: codec_eval)
  have t1: "TrimSpace ''NAME=\"\"a\"\"  '' = ''NAME'' @ CHR ''='' # dquote # ''\"a\"'' @ [dquote]"
    by (simp add: codec_eval)
  have "parseEnvLine ''NAME=\"\"a\"\"  '' = Some (TrimSpace ''NAME'', ''\"a\"'')"
    by (rule stripped [where q = dquote]) (simp add: t1 k HasPrefix_def)
  then have r1: "parseEnvLine ''NAME=\"\"a\"\"  '' = Some (''NAME'', ''\"a\"'')"
    by (simp add: k)
  have t2: "TrimSpace ''  NAME = \"a=b\"'' = ''NAME '' @ CHR ''='' # '' \"a=b\"''"
    by (simp add: codec_eval)
  have u2: "\<not> (\<exists>q body. (q = dquote \<or> q = squote) \<and> '' \"a=b\"'' = q # body @ [q])"
    by (auto simp: dquote_def squote_def)
  have "parseEnvLine ''  NAME = \"a=b\"'' = Some (TrimSpace ''NAME '', '' \"a=b\"'')"
    by (rule untouched) (simp add: t2 u2 k HasPrefix_def)
  then have r2: "parseEnvLine ''  NAME = \"a=b\"'' = Some (''NAME'', '' \"a=b\"'')"
    by (simp add: k)
  have t3: "TrimSpace ''NAME=\"'' = ''NAME'' @ CHR ''='' # ''\"''"
    by (simp add: codec_eval)
  have u3: "\<not> (\<exists>q body. (q = dquote \<or> q = squote) \<and> ''\"'' = q # body @ [q])"
    by (auto simp: dquote_def squote_def)
  have "parseEnvLine ''NAME=\"'' = Some (TrimSpace ''NAME'', ''\"'')"
    by (rule untouched) (simp add: t3 u3 k HasPrefix_def)
  then have r3: "parseEnvLine ''NAME=\"'' = Some (''NAME'', ''\"'')"
    by (simp add: k)
  from t1 r1 t2 r2 r3 show ?thesis by blast
qed

section \<open>Environment names\<close>

lemma Base_last_element:
  assumes "name \<noteq> []" and "CHR ''/'' \<notin> set name"
  shows "Base (dir @ ''/'' @ name) = name"
proof -
  from assms obtain c cs where rn: "rev name = c # cs"
    by (cases "rev name") auto
  with assms(2) have c: "c \<noteq> CHR ''/''" and cs: "CHR ''/'' \<notin> set (c # cs)"
    by (metis list.set_intros(1) set_rev, metis set_rev)
  have "takeWhile (\<lambda>x. x \<noteq> CHR ''/'') ((c # cs) @ CHR ''/'' # rev dir) = c # cs"
    using cs by (rule takeWhile_upto_eq)
  then show ?thesis
    using c by (simp add: Base_def Let_def rn del: takeWhile.simps) (metis rev_rev_ident rn rev.simps(2))
qed

text \<open>
  Claim C10. \<^const>\<open>deriveEnvFromFile\<close> returns a name for every file name and has no
  error result: the base name \<^verbatim>\<open>.env\<close> gives \<^verbatim>\<open>development\<close>, a base name that
  starts with \<^verbatim>\<open>.env.\<close> gives what follows that prefix, and every other base name
  gives \<^verbatim>\<open>development\<close>.
\<close>

theorem deriveEnvFromFile_cases:
  "(Base file = ''.env'' \<longrightarrow> deriveEnvFromFile file = ''development'') \<and>
   (\<forall>rest. Base file = ''.env.'' @ rest \<longrightarrow> deriveEnvFromFile file = rest) \<and>
   (\<not> (\<exists>rest. Base file = ''.env.'' @ rest) \<longrightarrow> deriveEnvFromFile file = ''development'')"
proof (intro conjI allI impI)
  assume "Base file = ''.env''"
  then show "deriveEnvFromFile file = ''development''"
    by (simp add: deriveEnvFromFile_def)
next
  fix rest
  assume "Base file = ''.env.'' @ rest"
  then show "deriveEnvFromFile file = rest"
    by (simp add: deriveEnvFromFile_def HasPrefix_def TrimPrefix_def)
next
  assume no: "\<not> (\<exists>rest. Base file = ''.env.'' @ rest)"
  have "\<not> HasPrefix (Base file) ''.env.''"
  proof
    assume "HasPrefix (Base file) ''.env.''"
    then have "Base file = ''.env.'' @ drop (length ''.env.'') (Base file)"
      unfolding HasPrefix_def by (metis append_take_drop_id)
    with no show False by blast
  qed
  then show "deriveEnvFromFile file = ''development''"
    by (simp add: deriveEnvFromFile_def Let_def)
qed

theorem deriveEnvFromFile_cases_witness:
  "Base ''.env'' = ''.env'' \<and> deriveEnvFromFile ''.env'' = ''development'' \<and>
   Base ''apps/web/.env.production'' = ''.env.'' @ ''production'' \<and>
   deriveEnvFromFile ''apps/web/.env.production'' = ''production'' \<and>
   Base ''secrets.txt'' = ''secrets.txt'' \<and>
   deriveEnvFromFile ''secrets.txt'' = ''development''"
proof -
  have b1: "Base ''.env'' = ''.env''"
    and b2: "Base ''apps/web/.env.production'' = ''.env.'' @ ''production''"
    and b3: "Base ''secrets.txt'' = ''secrets.txt''"
    by (simp_all add: Base_def)
  have n3: "\<not> (\<exists>rest. Base ''secrets.txt'' = ''.env.'' @ rest)"
    by (simp add: b3)
  from deriveEnvFromFile_cases [of "''.env''"] b1
  have d1: "deriveEnvFromFile ''.env'' = ''development''" by blast
  from deriveEnvFromFile_cases [of "''apps/web/.env.production''"] b2
  have d2: "deriveEnvFromFile ''apps/web/.env.production'' = ''production''" by blast
  from deriveEnvFromFile_cases [of "''secrets.txt''"] n3
  have d3: "deriveEnvFromFile ''secrets.txt'' = ''development''" by blast
  from b1 b2 b3 d1 d2 d3 show ?thesis by blast
qed

section \<open>The two diffs\<close>

lemmas diff_eval =
  calculatePushDiff_def pushLocalStep_def pushVaultStep_def calculateDiff_def
  diffVaultStep_def diffLocalStep_def pushBuckets_def pullBuckets_def bucketsOf_def

lemma foldl_pushLocalStep:
  "foldl (pushLocalStep vault) d kvs =
     d\<lparr>pushDiff.added := pushDiff.added d @ map fst (filter (\<lambda>(k, v). vault k = None) kvs),
       pushDiff.changed := pushDiff.changed d @
          map fst (filter (\<lambda>(k, v). \<exists>w. vault k = Some w \<and> v \<noteq> w) kvs)\<rparr>"
  by (induction kvs arbitrary: d) (auto simp: pushLocalStep_def split: option.splits)

lemma foldl_pushVaultStep:
  "foldl (pushVaultStep local) d kvs =
     d\<lparr>pushDiff.removed := pushDiff.removed d @ map fst (filter (\<lambda>(k, v). local k = None) kvs)\<rparr>"
  by (induction kvs arbitrary: d) (auto simp: pushVaultStep_def split: option.splits)

lemma calculatePushDiff_buckets:
  "pushDiff.added (calculatePushDiff lv vv local vault) =
     map fst (filter (\<lambda>(k, v). vault k = None) lv)"
  "pushDiff.changed (calculatePushDiff lv vv local vault) =
     map fst (filter (\<lambda>(k, v). \<exists>w. vault k = Some w \<and> v \<noteq> w) lv)"
  "pushDiff.removed (calculatePushDiff lv vv local vault) =
     map fst (filter (\<lambda>(k, v). local k = None) vv)"
  by (simp_all add: calculatePushDiff_def foldl_pushLocalStep foldl_pushVaultStep)

lemma foldl_diffVaultStep:
  "foldl (diffVaultStep local) d kvs =
     d\<lparr>secretsDiff.added := secretsDiff.added d @ map fst (filter (\<lambda>(k, v). local k = None) kvs),
       secretsDiff.changed := secretsDiff.changed d @
          map fst (filter (\<lambda>(k, v). \<exists>w. local k = Some w \<and> w \<noteq> v) kvs),
       unchanged := unchanged d @ map fst (filter (\<lambda>(k, v). local k = Some v) kvs)\<rparr>"
  by (induction kvs arbitrary: d) (auto simp: diffVaultStep_def split: option.splits)

lemma foldl_diffLocalStep:
  "foldl (diffLocalStep vault) d kvs =
     d\<lparr>localOnly := localOnly d @ map fst (filter (\<lambda>(k, v). vault k = None) kvs)\<rparr>"
  by (induction kvs arbitrary: d) (auto simp: diffLocalStep_def split: option.splits)

lemma calculateDiff_buckets:
  "secretsDiff.added (calculateDiff vv lv local vault) =
     map fst (filter (\<lambda>(k, v). local k = None) vv)"
  "secretsDiff.changed (calculateDiff vv lv local vault) =
     map fst (filter (\<lambda>(k, v). \<exists>w. local k = Some w \<and> w \<noteq> v) vv)"
  "unchanged (calculateDiff vv lv local vault) =
     map fst (filter (\<lambda>(k, v). local k = Some v) vv)"
  "localOnly (calculateDiff vv lv local vault) =
     map fst (filter (\<lambda>(k, v). vault k = None) lv)"
  by (simp_all add: calculateDiff_def foldl_diffVaultStep foldl_diffLocalStep)

lemma ranges_entry: "ranges m kvs \<Longrightarrow> (k, v) \<in> set kvs \<longleftrightarrow> m k = Some v"
  by (auto simp: ranges_def)

lemma ranges_keys: "ranges m kvs \<Longrightarrow> fst ` set kvs = dom m"
  unfolding ranges_def by (metis dom_map_of_conv_image_fst)

lemma set_bucket:
  "ranges m kvs \<Longrightarrow> set (map fst (filter (\<lambda>(k, v). P k v) kvs)) = {k. \<exists>v. m k = Some v \<and> P k v}"
  by (force simp: ranges_entry image_iff)

lemma distinct_bucket:
  "ranges m kvs \<Longrightarrow> distinct (map fst (filter (\<lambda>(k, v). P k v) kvs))"
  by (simp add: ranges_def distinct_map_filter)


lemma ranges_dom: "ranges m kvs \<Longrightarrow> k \<in> dom m \<longleftrightarrow> (\<exists>v. (k, v) \<in> set kvs)"
  by (auto simp: ranges_entry)

lemma pull_bucket_sets:
  assumes "ranges local lv" and "ranges vault vv"
  shows "set (secretsDiff.added (calculateDiff vv lv local vault)) = dom vault - dom local"
    and "set (secretsDiff.changed (calculateDiff vv lv local vault)) =
          {k. \<exists>a b. local k = Some a \<and> vault k = Some b \<and> a \<noteq> b}"
    and "set (unchanged (calculateDiff vv lv local vault)) =
          {k. \<exists>a. local k = Some a \<and> vault k = Some a}"
    and "set (localOnly (calculateDiff vv lv local vault)) = dom local - dom vault"
proof -
  show "set (secretsDiff.added (calculateDiff vv lv local vault)) = dom vault - dom local"
    using assms(2) by (auto simp: calculateDiff_buckets set_bucket simp del: set_map)
  show "set (secretsDiff.changed (calculateDiff vv lv local vault)) =
          {k. \<exists>a b. local k = Some a \<and> vault k = Some b \<and> a \<noteq> b}"
    using assms(2) by (auto simp: calculateDiff_buckets set_bucket simp del: set_map)
  show "set (unchanged (calculateDiff vv lv local vault)) =
          {k. \<exists>a. local k = Some a \<and> vault k = Some a}"
    using assms(2) by (auto simp: calculateDiff_buckets set_bucket simp del: set_map)
  show "set (localOnly (calculateDiff vv lv local vault)) = dom local - dom vault"
    using assms(1) by (auto simp: calculateDiff_buckets set_bucket simp del: set_map)
qed

lemma push_bucket_sets:
  assumes "ranges local lv" and "ranges vault vv"
  shows "set (pushDiff.added (calculatePushDiff lv vv local vault)) = dom local - dom vault"
    and "set (pushDiff.changed (calculatePushDiff lv vv local vault)) =
          {k. \<exists>a b. local k = Some a \<and> vault k = Some b \<and> a \<noteq> b}"
    and "set (pushDiff.removed (calculatePushDiff lv vv local vault)) = dom vault - dom local"
proof -
  show "set (pushDiff.added (calculatePushDiff lv vv local vault)) = dom local - dom vault"
    using assms(1) by (auto simp: calculatePushDiff_buckets set_bucket simp del: set_map)
  show "set (pushDiff.changed (calculatePushDiff lv vv local vault)) =
          {k. \<exists>a b. local k = Some a \<and> vault k = Some b \<and> a \<noteq> b}"
    using assms(1) by (auto simp: calculatePushDiff_buckets set_bucket simp del: set_map)
  show "set (pushDiff.removed (calculatePushDiff lv vv local vault)) = dom vault - dom local"
    using assms(2) by (auto simp: calculatePushDiff_buckets set_bucket simp del: set_map)
qed

text \<open>
  Claim C2. Whatever order the two loops visit the maps in, the push-direction diff
  lists in \<open>added\<close> exactly the keys of \<open>local\<close> that \<open>vault\<close> lacks, in
  \<open>changed\<close> exactly the keys that both hold with different values, and in
  \<open>removed\<close> exactly the keys of \<open>vault\<close> that \<open>local\<close> lacks. The three buckets are
  pairwise disjoint, and a key that both maps hold with the same value is in none.
\<close>

theorem calculatePushDiff_partition:
  assumes "ranges local lv" and "ranges vault vv"
  shows "set (pushDiff.added (calculatePushDiff lv vv local vault)) = dom local - dom vault \<and>
    set (pushDiff.changed (calculatePushDiff lv vv local vault)) =
      {k. \<exists>a b. local k = Some a \<and> vault k = Some b \<and> a \<noteq> b} \<and>
    set (pushDiff.removed (calculatePushDiff lv vv local vault)) = dom vault - dom local \<and>
    set (pushDiff.added (calculatePushDiff lv vv local vault)) \<inter>
      set (pushDiff.changed (calculatePushDiff lv vv local vault)) = {} \<and>
    set (pushDiff.added (calculatePushDiff lv vv local vault)) \<inter>
      set (pushDiff.removed (calculatePushDiff lv vv local vault)) = {} \<and>
    set (pushDiff.changed (calculatePushDiff lv vv local vault)) \<inter>
      set (pushDiff.removed (calculatePushDiff lv vv local vault)) = {} \<and>
    {k. \<exists>a. local k = Some a \<and> vault k = Some a} \<inter>
      \<Union> (set ` set (pushBuckets (calculatePushDiff lv vv local vault))) = {}"
  by (auto simp: push_bucket_sets [OF assms] pushBuckets_def)

theorem calculatePushDiff_partition_witness:
  "ranges (map_of [(''FOO'', ''1''), (''BAZ'', ''3''), (''QUX'', ''4'')])
     [(''QUX'', ''4''), (''FOO'', ''1''), (''BAZ'', ''3'')] \<and>
   ranges (map_of [(''FOO'', ''1''), (''BAR'', ''2''), (''QUX'', ''5'')])
     [(''BAR'', ''2''), (''QUX'', ''5''), (''FOO'', ''1'')] \<and>
   set (pushDiff.added (calculatePushDiff
          [(''QUX'', ''4''), (''FOO'', ''1''), (''BAZ'', ''3'')]
          [(''BAR'', ''2''), (''QUX'', ''5''), (''FOO'', ''1'')]
          (map_of [(''FOO'', ''1''), (''BAZ'', ''3''), (''QUX'', ''4'')])
          (map_of [(''FOO'', ''1''), (''BAR'', ''2''), (''QUX'', ''5'')]))) = {''BAZ''} \<and>
   set (pushDiff.changed (calculatePushDiff
          [(''QUX'', ''4''), (''FOO'', ''1''), (''BAZ'', ''3'')]
          [(''BAR'', ''2''), (''QUX'', ''5''), (''FOO'', ''1'')]
          (map_of [(''FOO'', ''1''), (''BAZ'', ''3''), (''QUX'', ''4'')])
          (map_of [(''FOO'', ''1''), (''BAR'', ''2''), (''QUX'', ''5'')]))) = {''QUX''} \<and>
   set (pushDiff.removed (calculatePushDiff
          [(''QUX'', ''4''), (''FOO'', ''1''), (''BAZ'', ''3'')]
          [(''BAR'', ''2''), (''QUX'', ''5''), (''FOO'', ''1'')]
          (map_of [(''FOO'', ''1''), (''BAZ'', ''3''), (''QUX'', ''4'')])
          (map_of [(''FOO'', ''1''), (''BAR'', ''2''), (''QUX'', ''5'')]))) = {''BAR''}"
proof -
  let ?lv = "[(''QUX'', ''4''), (''FOO'', ''1''), (''BAZ'', ''3'')]"
  let ?vv = "[(''BAR'', ''2''), (''QUX'', ''5''), (''FOO'', ''1'')]"
  let ?local = "map_of [(''FOO'', ''1''), (''BAZ'', ''3''), (''QUX'', ''4'')]"
  let ?vault = "map_of [(''FOO'', ''1''), (''BAR'', ''2''), (''QUX'', ''5'')]"
  have l: "ranges ?local ?lv" and v: "ranges ?vault ?vv"
    by (simp_all add: ranges_def fun_eq_iff)
  have dl: "dom ?local - dom ?vault = {''BAZ''}" 
    and dv: "dom ?vault - dom ?local = {''BAR''}" 
    by (simp_all add: dom_map_of_conv_image_fst insert_Diff_if)
  have ch: "{k. \<exists>a b. ?local k = Some a \<and> ?vault k = Some b \<and> a \<noteq> b} = {''QUX''}"
    by (auto split: if_splits)
  note p = calculatePushDiff_partition [OF l v]
  from p have a: "set (pushDiff.added (calculatePushDiff ?lv ?vv ?local ?vault)) = {''BAZ''}"
    unfolding dl by (rule conjunct1)
  from p have c: "set (pushDiff.changed (calculatePushDiff ?lv ?vv ?local ?vault)) = {''QUX''}"
    unfolding ch by (elim conjE)
  from p have r: "set (pushDiff.removed (calculatePushDiff ?lv ?vv ?local ?vault)) = {''BAR''}"
    unfolding dv by (elim conjE)
  show ?thesis
    by (intro conjI l v a c r)
qed

lemma length_bucketsOf:
  "length (bucketsOf k bs) = (\<Sum>b\<leftarrow>bs. if k \<in> set b then 1 else 0)"
  by (induction bs) (simp_all add: bucketsOf_def)

text \<open>
  Claim C3, as amended. In the pull-direction diff every key of \<open>local\<close> or \<open>vault\<close>
  is in exactly one of the four buckets. The push-direction diff has no bucket for
  unchanged keys: a key of \<open>local\<close> or \<open>vault\<close> is in exactly one of its three buckets
  when the two maps differ at it, and in none when both hold it with the same value. In
  both directions no key is in two buckets, and a key of neither map is in none.
\<close>

theorem diff_buckets_exactly_one:
  assumes "ranges local lv" and "ranges vault vv"
  shows "length (bucketsOf k (pullBuckets (calculateDiff vv lv local vault))) =
           (if k \<in> dom local \<union> dom vault then 1 else 0) \<and>
         length (bucketsOf k (pushBuckets (calculatePushDiff lv vv local vault))) =
           (if k \<in> dom local \<union> dom vault \<and> local k \<noteq> vault k then 1 else 0)"
proof
  show "length (bucketsOf k (pullBuckets (calculateDiff vv lv local vault))) =
           (if k \<in> dom local \<union> dom vault then 1 else 0)"
    by (cases "local k"; cases "vault k")
      (auto simp: length_bucketsOf pullBuckets_def pull_bucket_sets [OF assms])
  show "length (bucketsOf k (pushBuckets (calculatePushDiff lv vv local vault))) =
           (if k \<in> dom local \<union> dom vault \<and> local k \<noteq> vault k then 1 else 0)"
    by (cases "local k"; cases "vault k")
      (auto simp: length_bucketsOf pushBuckets_def push_bucket_sets [OF assms])
qed

text \<open>
  The claim as first stated fails for the push direction: with \<open>FOO = 1\<close> on both
  sides, \<open>FOO\<close> is a key of the union and no bucket lists it.
\<close>

theorem push_bucket_missing_counterexample:
  "ranges (map_of [(''FOO'', ''1'')]) [(''FOO'', ''1'')] \<and>
   ''FOO'' \<in> dom (map_of [(''FOO'', ''1'')]) \<union> dom (map_of [(''FOO'', ''1'')]) \<and>
   bucketsOf ''FOO'' (pushBuckets (calculatePushDiff [(''FOO'', ''1'')] [(''FOO'', ''1'')]
      (map_of [(''FOO'', ''1'')]) (map_of [(''FOO'', ''1'')]))) = [] \<and>
   calculatePushDiff [(''FOO'', ''1'')] [(''FOO'', ''1'')]
      (map_of [(''FOO'', ''1'')]) (map_of [(''FOO'', ''1'')]) =
     \<lparr>pushDiff.added = [], changed = [], removed = []\<rparr>"
  by (simp add: calculatePushDiff_def pushLocalStep_def pushVaultStep_def pushBuckets_def
      bucketsOf_def ranges_def)

theorem diff_buckets_exactly_one_witness:
  "ranges (map_of [(''FOO'', ''1''), (''LOCAL_ONLY'', ''x'')])
     [(''LOCAL_ONLY'', ''x''), (''FOO'', ''1'')] \<and>
   ranges (map_of [(''FOO'', ''1''), (''NEW'', ''2'')]) [(''FOO'', ''1''), (''NEW'', ''2'')] \<and>
   length (bucketsOf ''FOO'' (pullBuckets (calculateDiff
      [(''FOO'', ''1''), (''NEW'', ''2'')] [(''LOCAL_ONLY'', ''x''), (''FOO'', ''1'')]
      (map_of [(''FOO'', ''1''), (''LOCAL_ONLY'', ''x'')])
      (map_of [(''FOO'', ''1''), (''NEW'', ''2'')])))) = 1 \<and>
   length (bucketsOf ''FOO'' (pushBuckets (calculatePushDiff
      [(''LOCAL_ONLY'', ''x''), (''FOO'', ''1'')] [(''FOO'', ''1''), (''NEW'', ''2'')]
      (map_of [(''FOO'', ''1''), (''LOCAL_ONLY'', ''x'')])
      (map_of [(''FOO'', ''1''), (''NEW'', ''2'')])))) = 0 \<and>
   length (bucketsOf ''NEW'' (pushBuckets (calculatePushDiff
      [(''LOCAL_ONLY'', ''x''), (''FOO'', ''1'')] [(''FOO'', ''1''), (''NEW'', ''2'')]
      (map_of [(''FOO'', ''1''), (''LOCAL_ONLY'', ''x'')])
      (map_of [(''FOO'', ''1''), (''NEW'', ''2'')])))) = 1"
proof -
  let ?lv = "[(''LOCAL_ONLY'', ''x''), (''FOO'', ''1'')]"
  let ?vv = "[(''FOO'', ''1''), (''NEW'', ''2'')]"
  let ?local = "map_of [(''FOO'', ''1''), (''LOCAL_ONLY'', ''x'')]"
  let ?vault = "map_of [(''FOO'', ''1''), (''NEW'', ''2'')]"
  have l: "ranges ?local ?lv" and v: "ranges ?vault ?vv"
    by (simp_all add: ranges_def fun_eq_iff)
  have foo: "''FOO'' \<in> dom ?local \<union> dom ?vault" "?local ''FOO'' = ?vault ''FOO''"
    by simp_all
  have new: "''NEW'' \<in> dom ?local \<union> dom ?vault" "?local ''NEW'' \<noteq> ?vault ''NEW''"
    by simp_all
  from diff_buckets_exactly_one [OF l v, of "''FOO''"] foo
  have f1: "length (bucketsOf ''FOO'' (pullBuckets (calculateDiff ?vv ?lv ?local ?vault))) = 1"
    and f2: "length (bucketsOf ''FOO'' (pushBuckets (calculatePushDiff ?lv ?vv ?local ?vault))) = 0"
    by presburger+
  from diff_buckets_exactly_one [OF l v, of "''NEW''"] new
  have n1: "length (bucketsOf ''NEW'' (pushBuckets (calculatePushDiff ?lv ?vv ?local ?vault))) = 1"
    by presburger
  show ?thesis
    by (intro conjI l v f1 f2 n1)
qed

section \<open>Visiting order, buckets and merged lines\<close>

lemma foldl_mergeLocalStep:
  "foldl (mergeLocalStep vault) acc kvs =
     acc @ map (\<lambda>(k, v). k @ ''='' @ v) (filter (\<lambda>(k, v). vault k = None) kvs)"
  by (induction kvs arbitrary: acc) (auto simp: mergeLocalStep_def split: option.splits)

lemma foldl_append_lines:
  "foldl (\<lambda>result line. result @ line @ [newline]) acc ls =
     acc @ concat (map (\<lambda>line. line @ [newline]) ls)"
  by (induction ls arbitrary: acc) simp_all

lemma mergeSecrets_text:
  "mergeSecrets lv vaultContent local vault =
     TrimRightNewline vaultContent @
     (if localOnlyEntries lv vault = [] then ''\<newline>''
      else ''\<newline>\<newline># Local variables (not in vault)\<newline>'' @
           concat (map (\<lambda>(k, v). k @ ''='' @ v @ ''\<newline>'') (localOnlyEntries lv vault)))"
proof -
  have "concat (map (\<lambda>line. line @ [newline]) (map (\<lambda>(k, v). k @ ''='' @ v) xs)) =
        concat (map (\<lambda>(k, v). k @ ''='' @ v @ ''\<newline>'') xs)" for xs :: visit
    by (induction xs) (auto simp: newline_def)
  then show ?thesis
    by (simp add: mergeSecrets_def Let_def foldl_mergeLocalStep foldl_append_lines
        localOnlyEntries_def)
qed

lemma ranges_mset:
  assumes "ranges m kvs" and "ranges m kvs'"
  shows "mset kvs = mset kvs'"
proof -
  from assms have "distinct kvs" "distinct kvs'"
    by (auto simp: ranges_def distinct_map)
  moreover from assms have "set kvs = set kvs'"
    by (auto simp: ranges_entry)
  ultimately show ?thesis
    by (simp add: set_eq_iff_mset_eq_distinct)
qed

lemma ranges_bucket_mset:
  assumes "ranges m kvs" and "ranges m kvs'"
  shows "mset (map f (filter P kvs)) = mset (map f (filter P kvs'))"
  using ranges_mset [OF assms] by (metis mset_filter mset_map)

lemma subseq_bucket: "subseq (map fst (filter P kvs)) (map fst kvs)"
  by (simp add: subseq_map)

text \<open>
  Claim C4, as amended. Nothing sorts a bucket: each bucket of either diff lists its
  keys in the order in which its loop visits the map, so it is a subsequence of the keys
  visited, and the lines that \<^const>\<open>mergeSecrets\<close> appends follow the visit of
  \<open>local\<close> in the same way. What is fixed by the two maps alone is which keys a bucket
  holds and that it holds each once: two runs on the same maps, whatever their visiting
  orders, give buckets that are permutations of each other, and append the same lines up
  to their order.
\<close>

theorem buckets_follow_visit_order:
  assumes "ranges local lv" and "ranges vault vv" and "ranges local lv'" and "ranges vault vv'"
  shows
    "subseq (pushDiff.added (calculatePushDiff lv vv local vault)) (map fst lv) \<and>
     subseq (pushDiff.changed (calculatePushDiff lv vv local vault)) (map fst lv) \<and>
     subseq (pushDiff.removed (calculatePushDiff lv vv local vault)) (map fst vv) \<and>
     subseq (secretsDiff.added (calculateDiff vv lv local vault)) (map fst vv) \<and>
     subseq (secretsDiff.changed (calculateDiff vv lv local vault)) (map fst vv) \<and>
     subseq (unchanged (calculateDiff vv lv local vault)) (map fst vv) \<and>
     subseq (localOnly (calculateDiff vv lv local vault)) (map fst lv) \<and>
     mset (pushDiff.added (calculatePushDiff lv vv local vault)) =
       mset (pushDiff.added (calculatePushDiff lv' vv' local vault)) \<and>
     mset (pushDiff.changed (calculatePushDiff lv vv local vault)) =
       mset (pushDiff.changed (calculatePushDiff lv' vv' local vault)) \<and>
     mset (pushDiff.removed (calculatePushDiff lv vv local vault)) =
       mset (pushDiff.removed (calculatePushDiff lv' vv' local vault)) \<and>
     mset (secretsDiff.added (calculateDiff vv lv local vault)) =
       mset (secretsDiff.added (calculateDiff vv' lv' local vault)) \<and>
     mset (secretsDiff.changed (calculateDiff vv lv local vault)) =
       mset (secretsDiff.changed (calculateDiff vv' lv' local vault)) \<and>
     mset (unchanged (calculateDiff vv lv local vault)) =
       mset (unchanged (calculateDiff vv' lv' local vault)) \<and>
     mset (localOnly (calculateDiff vv lv local vault)) =
       mset (localOnly (calculateDiff vv' lv' local vault)) \<and>
     mergeSecrets lv vaultContent local vault =
       TrimRightNewline vaultContent @
       (if localOnlyEntries lv vault = [] then ''\<newline>''
        else ''\<newline>\<newline># Local variables (not in vault)\<newline>'' @
             concat (map (\<lambda>(k, v). k @ ''='' @ v @ ''\<newline>'') (localOnlyEntries lv vault))) \<and>
     subseq (localOnlyEntries lv vault) lv \<and>
     mset (localOnlyEntries lv vault) = mset (localOnlyEntries lv' vault)"
proof -
  note l = ranges_bucket_mset [OF assms(1) assms(3)]
  note v = ranges_bucket_mset [OF assms(2) assms(4)]
  have order: "subseq (localOnlyEntries lv vault) lv"
    by (simp add: localOnlyEntries_def)
  have same: "mset (localOnlyEntries lv vault) = mset (localOnlyEntries lv' vault)"
    using l [of "\<lambda>x. x"] by (simp add: localOnlyEntries_def)
  show ?thesis
    unfolding calculatePushDiff_buckets calculateDiff_buckets
    by (intro conjI subseq_bucket l v mergeSecrets_text order same)
qed

text \<open>
  The claim as first stated fails: the map \<open>{A: 1, B: 2}\<close> can be visited as \<open>A, B\<close>
  or as \<open>B, A\<close>, and the second visit gives the unsorted bucket \<open>[B, A]\<close> and a
  merged text that differs from the one of the first visit.
\<close>

theorem bucket_order_counterexample:
  "ranges (map_of [(''A'', ''1''), (''B'', ''2'')]) [(''A'', ''1''), (''B'', ''2'')] \<and>
   ranges (map_of [(''A'', ''1''), (''B'', ''2'')]) [(''B'', ''2''), (''A'', ''1'')] \<and>
   ranges Map.empty [] \<and>
   pushDiff.added (calculatePushDiff [(''A'', ''1''), (''B'', ''2'')] []
      (map_of [(''A'', ''1''), (''B'', ''2'')]) Map.empty) = [''A'', ''B''] \<and>
   pushDiff.added (calculatePushDiff [(''B'', ''2''), (''A'', ''1'')] []
      (map_of [(''A'', ''1''), (''B'', ''2'')]) Map.empty) = [''B'', ''A''] \<and>
   \<not> sorted [''B'', ''A''] \<and>
   localOnly (calculateDiff [] [(''B'', ''2''), (''A'', ''1'')]
      (map_of [(''A'', ''1''), (''B'', ''2'')]) Map.empty) = [''B'', ''A''] \<and>
   mergeSecrets [(''A'', ''1''), (''B'', ''2'')] ''''
      (map_of [(''A'', ''1''), (''B'', ''2'')]) Map.empty =
     ''\<newline>\<newline># Local variables (not in vault)\<newline>A=1\<newline>B=2\<newline>'' \<and>
   mergeSecrets [(''B'', ''2''), (''A'', ''1'')] ''''
      (map_of [(''A'', ''1''), (''B'', ''2'')]) Map.empty =
     ''\<newline>\<newline># Local variables (not in vault)\<newline>B=2\<newline>A=1\<newline>''"
proof -
  have r: "ranges (map_of [(''A'', ''1''), (''B'', ''2'')]) [(''A'', ''1''), (''B'', ''2'')]"
    "ranges (map_of [(''A'', ''1''), (''B'', ''2'')]) [(''B'', ''2''), (''A'', ''1'')]"
    "ranges Map.empty []"
    by (simp_all add: ranges_def fun_eq_iff)
  have s: "\<not> sorted [''B'', ''A'']"
    by (simp add: less_eq_char_def)
  have d: "pushDiff.added (calculatePushDiff [(''A'', ''1''), (''B'', ''2'')] []
      (map_of [(''A'', ''1''), (''B'', ''2'')]) Map.empty) = [''A'', ''B'']"
    "pushDiff.added (calculatePushDiff [(''B'', ''2''), (''A'', ''1'')] []
      (map_of [(''A'', ''1''), (''B'', ''2'')]) Map.empty) = [''B'', ''A'']"
    "localOnly (calculateDiff [] [(''B'', ''2''), (''A'', ''1'')]
      (map_of [(''A'', ''1''), (''B'', ''2'')]) Map.empty) = [''B'', ''A'']"
    by (simp_all add: calculatePushDiff_def pushLocalStep_def calculateDiff_def diffLocalStep_def)
  have m: "mergeSecrets [(''A'', ''1''), (''B'', ''2'')] ''''
      (map_of [(''A'', ''1''), (''B'', ''2'')]) Map.empty =
     ''\<newline>\<newline># Local variables (not in vault)\<newline>A=1\<newline>B=2\<newline>''"
    "mergeSecrets [(''B'', ''2''), (''A'', ''1'')] ''''
      (map_of [(''A'', ''1''), (''B'', ''2'')]) Map.empty =
     ''\<newline>\<newline># Local variables (not in vault)\<newline>B=2\<newline>A=1\<newline>''"
    by (simp_all add: mergeSecrets_def mergeLocalStep_def TrimRightNewline_def newline_def)
  show ?thesis
    by (intro conjI r s d m)
qed

theorem buckets_follow_visit_order_witness:
  "ranges (map_of [(''A'', ''1''), (''B'', ''2'')]) [(''A'', ''1''), (''B'', ''2'')] \<and>
   ranges (map_of [(''B'', ''3'')]) [(''B'', ''3'')] \<and>
   ranges (map_of [(''A'', ''1''), (''B'', ''2'')]) [(''B'', ''2''), (''A'', ''1'')] \<and>
   subseq (pushDiff.added (calculatePushDiff [(''A'', ''1''), (''B'', ''2'')] [(''B'', ''3'')]
        (map_of [(''A'', ''1''), (''B'', ''2'')]) (map_of [(''B'', ''3'')])))
     (map fst [(''A'', ''1''), (''B'', ''2'')]) \<and>
   mset (pushDiff.changed (calculatePushDiff [(''A'', ''1''), (''B'', ''2'')] [(''B'', ''3'')]
        (map_of [(''A'', ''1''), (''B'', ''2'')]) (map_of [(''B'', ''3'')]))) =
     mset (pushDiff.changed (calculatePushDiff [(''B'', ''2''), (''A'', ''1'')] [(''B'', ''3'')]
        (map_of [(''A'', ''1''), (''B'', ''2'')]) (map_of [(''B'', ''3'')]))) \<and>
   mset (localOnlyEntries [(''A'', ''1''), (''B'', ''2'')] (map_of [(''B'', ''3'')])) =
     mset (localOnlyEntries [(''B'', ''2''), (''A'', ''1'')] (map_of [(''B'', ''3'')]))"
proof -
  have l: "ranges (map_of [(''A'', ''1''), (''B'', ''2'')]) [(''A'', ''1''), (''B'', ''2'')]"
    and v: "ranges (map_of [(''B'', ''3'')]) [(''B'', ''3'')]"
    and l': "ranges (map_of [(''A'', ''1''), (''B'', ''2'')]) [(''B'', ''2''), (''A'', ''1'')]"
    by (simp_all add: ranges_def fun_eq_iff)
  note t = buckets_follow_visit_order [OF l v l' v, of "''B=3''"]
  from t have a: "subseq (pushDiff.added (calculatePushDiff [(''A'', ''1''), (''B'', ''2'')]
        [(''B'', ''3'')] (map_of [(''A'', ''1''), (''B'', ''2'')]) (map_of [(''B'', ''3'')])))
     (map fst [(''A'', ''1''), (''B'', ''2'')])"
    by (rule conjunct1)
  from t have c: "mset (pushDiff.changed (calculatePushDiff [(''A'', ''1''), (''B'', ''2'')]
        [(''B'', ''3'')] (map_of [(''A'', ''1''), (''B'', ''2'')]) (map_of [(''B'', ''3'')]))) =
     mset (pushDiff.changed (calculatePushDiff [(''B'', ''2''), (''A'', ''1'')] [(''B'', ''3'')]
        (map_of [(''A'', ''1''), (''B'', ''2'')]) (map_of [(''B'', ''3'')])))"
    by (elim conjE)
  from t have e: "mset (localOnlyEntries [(''A'', ''1''), (''B'', ''2'')] (map_of [(''B'', ''3'')])) =
     mset (localOnlyEntries [(''B'', ''2''), (''A'', ''1'')] (map_of [(''B'', ''3'')]))"
    by (elim conjE)
  show ?thesis
    by (intro conjI l v l' a c e)
qed

section \<open>The calls a push makes\<close>

lemma fst_emit [simp]: "fst (emit es out) = es @ fst out"
  and snd_emit [simp]: "snd (emit es out) = snd out"
  by (simp_all add: emit_def)

lemma gitignoreGuard_events:
  "e \<in> set (gitignoreGuard w) \<Longrightarrow>
     e = CheckEnvGitignore \<or> e = AddEnvToGitignore \<or> e = Confirm ''Add .env* to .gitignore?'' \<or>
     (\<exists>t. e = Warn t) \<or> (\<exists>t. e = Success t)"
  by (auto simp: gitignoreGuard_def split: if_splits)

lemma pushNoEnvFile_events:
  "e \<in> set (fst (pushNoEnvFile w)) \<Longrightarrow>
     (\<exists>t. e = UiError t) \<or> (\<exists>p. e = Confirm p) \<or> (\<exists>p c m. e = WriteFile p c m) \<or>
     (\<exists>t. e = Success t) \<or> e = Message [Dim ''Add your variables and run keyway push again'']"
  by (auto simp: pushNoEnvFile_def split: if_splits option.splits)

lemma chooseFile_events:
  "chooseFile w fl cs = (es, r) \<Longrightarrow> e \<in> set es \<Longrightarrow> \<exists>p opts. e = Select p opts"
  by (auto simp: chooseFile_def Let_def split: if_splits sum.splits)

lemma pushUpload_events:
  "e \<in> set (fst (pushUpload w env secrets repo token)) \<Longrightarrow>
     (\<exists>n ps. e = Track n ps) \<or> (\<exists>s. e = Spin s) \<or> (\<exists>r v s. e = PushSecrets r v s) \<or>
     (\<exists>t. e = UiError t) \<or> (\<exists>t. e = Success t) \<or> (\<exists>t. e = Outro t) \<or>
     (\<exists>u. e = Message [Plain ''Upgrade: '', Link u]) \<or> (\<exists>s. e = Message [Plain (''Stats: '' @ s)])"
  by (auto simp: pushUpload_def statsMessage_def split: sum.splits error.splits if_splits option.splits)

lemma pushConfirm_events:
  "e \<in> set (fst (pushConfirm w yes file env secrets repo token)) \<Longrightarrow>
     (\<exists>p. e = Confirm p) \<or> (\<exists>t. e = Warn t) \<or> e \<in> set (fst (pushUpload w env secrets repo token))"
  by (auto simp: pushConfirm_def Let_def split: if_splits)

lemma pushPreview_events:
  "e \<in> set (fst (pushPreview w yes file env secrets repo token vault)) \<Longrightarrow>
     (\<exists>t. e = Message t) \<or> (\<exists>t. e = Info t) \<or> (\<exists>k. e = DiffAdded k) \<or> (\<exists>k. e = DiffChanged k) \<or>
     (\<exists>k. e = DiffRemoved k) \<or> e \<in> set (fst (pushConfirm w yes file env secrets repo token))"
  by (auto simp: pushPreview_def Let_def split: if_splits)

lemma pushFetch_events:
  "e \<in> set (fst (pushFetch w yes file env secrets repo token)) \<Longrightarrow>
     (\<exists>s. e = Spin s) \<or> e = PullSecrets repo env \<or> (\<exists>t. e = UiError t) \<or>
     (\<exists>vault. e \<in> set (fst (pushPreview w yes file env secrets repo token vault)))"
  by (auto simp: pushFetch_def split: sum.splits error.splits if_splits)

lemma pushConnect_events:
  "e \<in> set (fst (pushConnect w yes file env secrets)) \<Longrightarrow>
     e = DetectRepo \<or> e = EnsureLogin \<or> (\<exists>t. e = UiError t) \<or> (\<exists>t. e = Step t) \<or>
     (\<exists>repo token. e \<in> set (fst (pushFetch w yes file env secrets repo token)))"
  by (auto simp: pushConnect_def split: sum.splits)

lemma pushConnect_no_read: "ReadFile f \<notin> set (fst (pushConnect w yes file env secrets))"
  by (blast dest!: pushConnect_events pushFetch_events pushPreview_events pushConfirm_events
      pushUpload_events)

lemma trimLeftSpace_blank: "\<forall>c \<in> set s. asciiSpace c \<Longrightarrow> trimLeftSpace s = []"
proof (induction s)
  case Nil
  show ?case by (simp add: trimLeftSpace.simps spaceWidth_def)
next
  case (Cons c cs)
  then have "spaceWidth (c # cs) = 1" by (simp add: spaceWidth_def)
  then have "trimLeftSpace (c # cs) = trimLeftSpace cs"
    by (subst trimLeftSpace.simps) simp
  with Cons show ?case by simp
qed

lemma TrimSpace_blank: "\<forall>c \<in> set s. asciiSpace c \<Longrightarrow> TrimSpace s = []"
  by (simp add: TrimSpace_def trimLeftSpace_blank trimRightSpace.simps lastSpaceWidth_def)

lemma pushLoad_read:
  "ReadFile f \<in> set (fst (pushLoad w yes file env)) \<Longrightarrow> f = file"
  using pushConnect_no_read [of f w yes "file" "env"]
  by (auto simp: pushLoad_def Let_def split: sum.splits if_splits)

lemma pushLoad_blank:
  "readFile w file = Inr content \<Longrightarrow> TrimSpace content = [] \<Longrightarrow>
   pushLoad w yes file env =
     ([ReadFile file, UiError [Plain (''File is empty: '' @ file)]], Some (Errorf ''file is empty''))"
  by (simp add: pushLoad_def emit_def)

lemma gitignoreGuard_local: "e \<in> set (gitignoreGuard w) \<Longrightarrow> \<not> networkCall e"
  by (auto dest!: gitignoreGuard_events)

text \<open>
  Claim C9. A push that reads a file whose content is white space only (nothing is left
  of it after \<^const>\<open>TrimSpace\<close>) returns the error \<^verbatim>\<open>file is empty\<close>; its last
  call reports that on the terminal, and none of its calls goes to the vault, the login
  or the telemetry.
\<close>

theorem runPush_rejects_blank_file:
  assumes "ReadFile f \<in> set (fst (runPush w fl))"
    and "readFile w f = Inr content" and "TrimSpace content = []"
  shows "snd (runPush w fl) = Some (Errorf ''file is empty'') \<and>
         (\<forall>e \<in> set (fst (runPush w fl)). \<not> networkCall e) \<and>
         last (fst (runPush w fl)) = UiError [Plain (''File is empty: '' @ f)]"
proof -
  let ?cs = "discoverEnvFiles w"
  let ?pre = "Intro ''push'' # gitignoreGuard w @ [ReadDir ''.'']"
  have pre: "e \<in> set ?pre \<Longrightarrow> \<not> networkCall e \<and> e \<noteq> ReadFile f" for e
    by (auto dest!: gitignoreGuard_events)
  show ?thesis
  proof (cases "length ?cs = 0 \<and> flagFile fl = []")
    case True
    then have "runPush w fl = emit ?pre (pushNoEnvFile w)"
      by (simp add: runPush_def)
    with assms(1) pre show ?thesis
      by (auto dest!: pushNoEnvFile_events)
  next
    case False
    obtain es r where c: "chooseFile w fl ?cs = (es, r)"
      by (cases "chooseFile w fl ?cs")
    have es: "e \<in> set es \<Longrightarrow> \<not> networkCall e \<and> e \<noteq> ReadFile f" for e
      using chooseFile_events [OF c] by fastforce
    show ?thesis
    proof (cases r)
      case (Inl err)
      with False c have "runPush w fl = emit ?pre (es, Some err)"
        by (auto simp: runPush_def Let_def)
      with assms(1) pre es show ?thesis by auto
    next
      case (Inr fe)
      obtain chosen env where fe: "fe = (chosen, env)" by (cases fe)
      from False c Inr fe
      have run: "runPush w fl = emit (?pre @ es) (pushLoad w (flagYes fl) chosen env)"
        by (auto simp: runPush_def Let_def emit_def)
      with assms(1) pre es have "ReadFile f \<in> set (fst (pushLoad w (flagYes fl) chosen env))"
        by auto
      then have "f = chosen" by (rule pushLoad_read)
      with assms(2,3)
      have load: "pushLoad w (flagYes fl) chosen env =
          ([ReadFile f, UiError [Plain (''File is empty: '' @ f)]], Some (Errorf ''file is empty''))"
        by (simp add: pushLoad_blank)
      from pre es show ?thesis
        unfolding run load by (auto simp: emit_def)
    qed
  qed
qed

lemmas flow_eval =
  runPush_def gitignoreGuard_def discoverEnvFiles_def excludeFiles_def chooseFile_def
  applyDefaults_def applySelection_def pushNoEnvFile_def pushLoad_def pushConnect_def
  pushFetch_def pushPreview_def pushConfirm_def pushUpload_def statsMessage_def
  statsParts_def pushDiff_hasChanges_def emit_def len_def itoa_def digitsOf.simps
  runPull_def pullFetch_def pullCompare_def pullShowDiff_def pullConfirm_def pullWrite_def
  secretsDiff_hasChanges_def mergeSecrets_def mergeLocalStep_def TrimRightNewline_def
  deriveEnvFromFile_def Base_def exampleWorld_def pushDefaults_def
  pullDefaults_def mode0600_def Let_def

text \<open>The texts of the example world, parsed and counted once.\<close>

lemma example_texts:
  "parseEnvContent ''FOO=1\<newline>NEW=2\<newline>'' = map_of [(''FOO'', ''1''), (''NEW'', ''2'')]"
  "parseEnvContent ''FOO=1\<newline>LOCAL_ONLY=x\<newline>'' =
     map_of [(''FOO'', ''1''), (''LOCAL_ONLY'', ''x'')]"
  "countEnvLines ''FOO=1\<newline>NEW=2\<newline>'' = 2"
  "countEnvLines ''FOO=1\<newline>NEW=2\<newline>\<newline># Local variables (not in vault)\<newline>LOCAL_ONLY=x\<newline>'' = 3"
  by (simp_all add: countEnvLines_def countedLine_def codec_eval fun_eq_iff)

theorem runPush_rejects_blank_file_witness:
  "ReadFile ''.env'' \<in> set (fst (runPush
      (exampleWorld\<lparr>readFile := (\<lambda>path. Inr '' \<newline>  '')\<rparr>) pushDefaults)) \<and>
   readFile (exampleWorld\<lparr>readFile := (\<lambda>path. Inr '' \<newline>  '')\<rparr>) ''.env'' = Inr '' \<newline>  '' \<and>
   TrimSpace '' \<newline>  '' = [] \<and>
   snd (runPush (exampleWorld\<lparr>readFile := (\<lambda>path. Inr '' \<newline>  '')\<rparr>) pushDefaults) =
     Some (Errorf ''file is empty'') \<and>
   list_all (\<lambda>e. \<not> networkCall e)
     (fst (runPush (exampleWorld\<lparr>readFile := (\<lambda>path. Inr '' \<newline>  '')\<rparr>) pushDefaults)) \<and>
   last (fst (runPush (exampleWorld\<lparr>readFile := (\<lambda>path. Inr '' \<newline>  '')\<rparr>) pushDefaults)) =
     UiError [Plain ''File is empty: .env'']"
proof -
  let ?w = "exampleWorld\<lparr>readFile := (\<lambda>path. Inr '' \<newline>  '')\<rparr>"
  have run: "runPush ?w pushDefaults =
    ([Intro ''push'', CheckEnvGitignore, ReadDir ''.'', ReadFile ''.env'',
      UiError [Plain ''File is empty: .env'']], Some (Errorf ''file is empty''))"
    by (simp add: flow_eval codec_eval)
  have r: "ReadFile ''.env'' \<in> set (fst (runPush ?w pushDefaults))"
    by (simp add: run)
  have c: "readFile ?w ''.env'' = Inr '' \<newline>  ''"
    by simp
  have t: "TrimSpace '' \<newline>  '' = []"
    by (simp add: codec_eval)
  note concl = runPush_rejects_blank_file [OF r c t]
  from concl have n: "list_all (\<lambda>e. \<not> networkCall e) (fst (runPush ?w pushDefaults))"
    by (simp add: list_all_iff)
  from concl have "snd (runPush ?w pushDefaults) = Some (Errorf ''file is empty'')"
    and "last (fst (runPush ?w pushDefaults)) = UiError [Plain ''File is empty: .env'']"
    by simp_all
  with r c t n show ?thesis by blast
qed

section \<open>Confirmation without a terminal\<close>

lemma blocked_emit:
  assumes "blocked out" and "\<forall>e \<in> set es. \<not> isUpload e" and "\<not> previewShown es"
  shows "blocked (emit es out)"
  using assms by (auto simp: blocked_def previewShown_def)

lemma blocked_error:
  "\<forall>e \<in> set es. \<not> isUpload e \<Longrightarrow> \<not> previewShown es \<Longrightarrow> blocked (es, Some err)"
  by (simp add: blocked_def)

lemma pushPreview_blocked:
  assumes "\<not> isInteractive w"
  shows "blocked (pushPreview w False chosen env secrets repo token vault)"
  using assms by (auto simp: blocked_def pushPreview_def pushConfirm_def Let_def)

lemma pushFetch_blocked:
  assumes "\<not> isInteractive w"
  shows "blocked (pushFetch w False chosen env secrets repo token)"
  unfolding pushFetch_def
  by (intro blocked_emit)
    (auto simp: previewShown_def pushPreview_blocked [OF assms] blocked_error
      split: sum.splits error.splits)

lemma pushConnect_blocked:
  assumes "\<not> isInteractive w"
  shows "blocked (pushConnect w False chosen env secrets)"
  unfolding pushConnect_def
  by (auto simp: previewShown_def pushFetch_blocked [OF assms] blocked_error
      intro!: blocked_emit split: sum.splits)

lemma pushLoad_blocked:
  assumes "\<not> isInteractive w"
  shows "blocked (pushLoad w False chosen env)"
  unfolding pushLoad_def Let_def
  by (auto simp: previewShown_def pushConnect_blocked [OF assms] blocked_error
      intro!: blocked_emit split: sum.splits)

lemma runPush_blocked:
  assumes "\<not> flagYes fl" and "\<not> isInteractive w"
  shows "blocked (runPush w fl)"
proof -
  have guard: "\<forall>e \<in> set (Intro ''push'' # gitignoreGuard w @ [ReadDir ''.'']). \<not> isUpload e"
    "\<not> previewShown (Intro ''push'' # gitignoreGuard w @ [ReadDir ''.''])"
    by (auto simp: previewShown_def dest!: gitignoreGuard_events)
  have none: "blocked (pushNoEnvFile w)"
    using assms(2) by (simp add: pushNoEnvFile_def blocked_error previewShown_def)
  have choice: "blocked (case chooseFile w fl cs of
             (es, Inl err) \<Rightarrow> (es, Some err)
           | (es, Inr (chosen, env)) \<Rightarrow> emit es (pushLoad w (flagYes fl) chosen env))" for cs
    using assms
    by (auto simp: chooseFile_def pushLoad_blocked emit_def split: prod.splits)
  show ?thesis
    unfolding runPush_def Let_def
    by (intro blocked_emit guard) (simp add: none choice)
qed


lemma pullWrite_events:
  "e \<in> set (fst (pullWrite w fl vc path ex ls vs diff)) \<Longrightarrow>
     (\<exists>c. e = WriteFile path c mode0600) \<or> (\<exists>t. e = UiError t) \<or> (\<exists>t. e = Success t) \<or>
     (\<exists>t. e = Message t) \<or> (\<exists>t. e = Outro t)"
  by (auto simp: pullWrite_def Let_def split: option.splits if_splits)

lemma pullShowDiff_events:
  "e \<in> set (pullShowDiff force ex diff) \<Longrightarrow>
     (\<exists>t. e = Message t) \<or> (\<exists>k. e = DiffAdded k) \<or> (\<exists>k. e = DiffChanged k) \<or>
     (\<exists>k. e = DiffKept k) \<or> (\<exists>k. e = DiffRemoved k)"
  by (auto simp: pullShowDiff_def split: if_splits)

lemma pullCompare_blocked:
  assumes "\<not> flagYes fl" and "\<not> isInteractive w"
    and "readFile w (filepathJoin w ''.'' (flagFile fl)) = Inr data"
  shows "pullCompare w fl vc =
     (ReadFile (filepathJoin w ''.'' (flagFile fl)) #
        pullShowDiff (flagForce fl) True
          (calculateDiff (diffVaultVisit w) (diffLocalVisit w) (parseEnvContent data)
             (parseEnvContent vc)),
      Some (Errorf (''file '' @ flagFile fl @ '' exists - use --yes to confirm'')))"
  using assms by (simp add: pullCompare_def pullConfirm_def Let_def emit_def)

lemma runPull_blocked:
  assumes "\<not> flagYes fl" and "\<not> isInteractive w"
    and "readFile w (filepathJoin w ''.'' (flagFile fl)) = Inr data"
  shows "(\<forall>e \<in> set (fst (runPull w fl)). \<not> isWrite e) \<and> snd (runPull w fl) \<noteq> None \<and>
     (ReadFile (filepathJoin w ''.'' (flagFile fl)) \<in> set (fst (runPull w fl)) \<longrightarrow>
        snd (runPull w fl) =
          Some (Errorf (''file '' @ flagFile fl @ '' exists - use --yes to confirm'')))"
  unfolding runPull_def pullFetch_def pullCompare_blocked [OF assms]
  by (auto simp: emit_def split: sum.splits error.splits
      dest!: gitignoreGuard_events pullShowDiff_events)

lemma runPull_missing_file_writes:
  assumes "detectRepo w = Inr repo" and "ensureLogin w = Inr token"
    and "pullSecrets w token repo (flagEnv fl) = Inr vc"
    and "readFile w (filepathJoin w ''.'' (flagFile fl)) = Inl err"
  shows "WriteFile (filepathJoin w ''.'' (flagFile fl)) vc mode0600 \<in> set (fst (runPull w fl))"
  using assms
  by (auto simp: runPull_def pullFetch_def pullCompare_def pullConfirm_def pullWrite_def
      Let_def emit_def split: option.splits)

text \<open>
  Claim C5, as amended. In a session without a terminal and without \<^verbatim>\<open>--yes\<close>:
  a push never uploads and always ends in an error, and once it has shown its preview
  (it has reached the confirmation step) the error is
  \<^verbatim>\<open>confirmation required - use --yes in non-interactive mode\<close>; a pull whose local
  file exists never writes a file and always ends in an error, and once it has read the
  local file the error is \<^verbatim>\<open>file ... exists - use --yes to confirm\<close>. A pull whose
  local file cannot be read is not asked to confirm: when repository, login and fetch
  succeed it writes the vault's text to the file.
\<close>

theorem confirmation_required_without_yes:
  assumes "\<not> flagYes fl" and "\<not> isInteractive w"
  shows
    "(\<forall>e \<in> set (fst (runPush w fl)). \<not> isUpload e) \<and> snd (runPush w fl) \<noteq> None \<and>
     (previewShown (fst (runPush w fl)) \<longrightarrow>
        snd (runPush w fl) =
          Some (Errorf ''confirmation required - use --yes in non-interactive mode'')) \<and>
     (\<forall>data. readFile w (filepathJoin w ''.'' (flagFile fl)) = Inr data \<longrightarrow>
        (\<forall>e \<in> set (fst (runPull w fl)). \<not> isWrite e) \<and> snd (runPull w fl) \<noteq> None \<and>
        (ReadFile (filepathJoin w ''.'' (flagFile fl)) \<in> set (fst (runPull w fl)) \<longrightarrow>
           snd (runPull w fl) =
             Some (Errorf (''file '' @ flagFile fl @ '' exists - use --yes to confirm'')))) \<and>
     (\<forall>repo token vc err.
        detectRepo w = Inr repo \<and> ensureLogin w = Inr token \<and>
        pullSecrets w token repo (flagEnv fl) = Inr vc \<and>
        readFile w (filepathJoin w ''.'' (flagFile fl)) = Inl err \<longrightarrow>
        WriteFile (filepathJoin w ''.'' (flagFile fl)) vc mode0600 \<in> set (fst (runPull w fl)))"
proof -
  have push: "blocked (runPush w fl)"
    using assms by (rule runPush_blocked)
  have pull: "(\<forall>e \<in> set (fst (runPull w fl)). \<not> isWrite e) \<and> snd (runPull w fl) \<noteq> None \<and>
        (ReadFile (filepathJoin w ''.'' (flagFile fl)) \<in> set (fst (runPull w fl)) \<longrightarrow>
           snd (runPull w fl) =
             Some (Errorf (''file '' @ flagFile fl @ '' exists - use --yes to confirm'')))"
    if "readFile w (filepathJoin w ''.'' (flagFile fl)) = Inr data" for data
    using assms that by (rule runPull_blocked)
  have missing: "WriteFile (filepathJoin w ''.'' (flagFile fl)) vc mode0600 \<in> set (fst (runPull w fl))"
    if "detectRepo w = Inr repo \<and> ensureLogin w = Inr token \<and>
        pullSecrets w token repo (flagEnv fl) = Inr vc \<and>
        readFile w (filepathJoin w ''.'' (flagFile fl)) = Inl err" for repo token vc err
    using that runPull_missing_file_writes [of w repo token fl vc err] by blast
  from push have p: "(\<forall>e \<in> set (fst (runPush w fl)). \<not> isUpload e) \<and> snd (runPush w fl) \<noteq> None \<and>
     (previewShown (fst (runPush w fl)) \<longrightarrow>
        snd (runPush w fl) =
          Some (Errorf ''confirmation required - use --yes in non-interactive mode''))"
    unfolding blocked_def .
  from pull have b: "\<forall>data. readFile w (filepathJoin w ''.'' (flagFile fl)) = Inr data \<longrightarrow>
        (\<forall>e \<in> set (fst (runPull w fl)). \<not> isWrite e) \<and> snd (runPull w fl) \<noteq> None \<and>
        (ReadFile (filepathJoin w ''.'' (flagFile fl)) \<in> set (fst (runPull w fl)) \<longrightarrow>
           snd (runPull w fl) =
             Some (Errorf (''file '' @ flagFile fl @ '' exists - use --yes to confirm'')))"
    by blast
  from missing have c: "\<forall>repo token vc err.
        detectRepo w = Inr repo \<and> ensureLogin w = Inr token \<and>
        pullSecrets w token repo (flagEnv fl) = Inr vc \<and>
        readFile w (filepathJoin w ''.'' (flagFile fl)) = Inl err \<longrightarrow>
        WriteFile (filepathJoin w ''.'' (flagFile fl)) vc mode0600 \<in> set (fst (runPull w fl))"
    by blast
  from p b c show ?thesis
    by (elim conjE) (intro conjI; assumption)
qed

text \<open>
  The claim as first stated fails for a pull whose local file does not exist: in a
  session without a terminal and without \<^verbatim>\<open>--yes\<close> the run passes the confirmation
  step, writes the file and returns no error.
\<close>

theorem pull_missing_file_counterexample:
  "\<not> isInteractive (exampleWorld\<lparr>readFile := (\<lambda>path. Inl (OtherError ''no such file'')),
        diffLocalVisit := [], mergeLocalVisit := []\<rparr>) \<and>
   \<not> flagYes pullDefaults \<and>
   runPull (exampleWorld\<lparr>readFile := (\<lambda>path. Inl (OtherError ''no such file'')),
        diffLocalVisit := [], mergeLocalVisit := []\<rparr>) pullDefaults =
     ([Intro ''pull'', CheckEnvGitignore, Step [Plain ''Environment: '', Value ''development''],
       DetectRepo, Step [Plain ''Repository: '', Value ''acme/app''], EnsureLogin,
       Track EventPull [(''repoFullName'', PString ''acme/app''),
                        (''environment'', PString ''development'')],
       Spin ''Downloading secrets...'', PullSecrets ''acme/app'' ''development'',
       ReadFile ''.env'', WriteFile ''.env'' ''FOO=1\<newline>NEW=2\<newline>'' mode0600,
       Success [Plain ''Secrets downloaded to '', File ''.env''],
       Message [Plain ''Variables: '', ValueInt 2], Outro [Plain ''Secrets synced!'']],
      None)"
  by (simp add: flow_eval diff_eval example_texts)

theorem confirmation_required_without_yes_witness:
  "\<not> flagYes pushDefaults \<and> \<not> flagYes pullDefaults \<and> \<not> isInteractive exampleWorld \<and>
   previewShown (fst (runPush exampleWorld pushDefaults)) \<and>
   snd (runPush exampleWorld pushDefaults) =
     Some (Errorf ''confirmation required - use --yes in non-interactive mode'') \<and>
   list_all (\<lambda>e. \<not> isUpload e) (fst (runPush exampleWorld pushDefaults)) \<and>
   readFile exampleWorld (filepathJoin exampleWorld ''.'' (flagFile pullDefaults)) =
     Inr ''FOO=1\<newline>LOCAL_ONLY=x\<newline>'' \<and>
   ReadFile (filepathJoin exampleWorld ''.'' (flagFile pullDefaults))
     \<in> set (fst (runPull exampleWorld pullDefaults)) \<and>
   snd (runPull exampleWorld pullDefaults) =
     Some (Errorf (''file '' @ flagFile pullDefaults @ '' exists - use --yes to confirm'')) \<and>
   list_all (\<lambda>e. \<not> isWrite e) (fst (runPull exampleWorld pullDefaults))"
proof -
  have y: "\<not> flagYes pushDefaults" "\<not> flagYes pullDefaults"
    by (simp_all add: pushDefaults_def pullDefaults_def)
  have i: "\<not> isInteractive exampleWorld"
    by (simp add: exampleWorld_def)
  have shown: "previewShown (fst (runPush exampleWorld pushDefaults))"
    by (simp add: previewShown_def flow_eval codec_eval diff_eval)
  have data: "readFile exampleWorld (filepathJoin exampleWorld ''.'' (flagFile pullDefaults)) =
     Inr ''FOO=1\<newline>LOCAL_ONLY=x\<newline>''"
    by (simp add: exampleWorld_def pullDefaults_def)
  have rd: "ReadFile (filepathJoin exampleWorld ''.'' (flagFile pullDefaults))
     \<in> set (fst (runPull exampleWorld pullDefaults))"
    by (simp add: flow_eval diff_eval example_texts)
  note push = confirmation_required_without_yes [OF y(1) i]
  note pull = confirmation_required_without_yes [OF y(2) i]
  from push shown have p1: "snd (runPush exampleWorld pushDefaults) =
     Some (Errorf ''confirmation required - use --yes in non-interactive mode'')"
    by (elim conjE) simp
  from push have p2: "list_all (\<lambda>e. \<not> isUpload e) (fst (runPush exampleWorld pushDefaults))"
    unfolding list_all_iff by (elim conjE)
  from pull have pulled:
    "(\<forall>e \<in> set (fst (runPull exampleWorld pullDefaults)). \<not> isWrite e) \<and>
     snd (runPull exampleWorld pullDefaults) \<noteq> None \<and>
     (ReadFile (filepathJoin exampleWorld ''.'' (flagFile pullDefaults))
        \<in> set (fst (runPull exampleWorld pullDefaults)) \<longrightarrow>
      snd (runPull exampleWorld pullDefaults) =
        Some (Errorf (''file '' @ flagFile pullDefaults @ '' exists - use --yes to confirm'')))"
    using data by (elim conjE allE [where x = "''FOO=1\<newline>LOCAL_ONLY=x\<newline>''"]) simp
  from pulled rd have q1: "snd (runPull exampleWorld pullDefaults) =
     Some (Errorf (''file '' @ flagFile pullDefaults @ '' exists - use --yes to confirm''))"
    by (elim conjE) simp
  from pulled have q2: "list_all (\<lambda>e. \<not> isWrite e) (fst (runPull exampleWorld pullDefaults))"
    unfolding list_all_iff by (elim conjE)
  show ?thesis
    by (intro conjI y i shown p1 p2 data rd q1 q2)
qed

section \<open>Fetch errors\<close>

lemma parseEnvContent_empty: "parseEnvContent [] = Map.empty"
  by (simp add: codec_eval)

lemma pushUpload_ignores_fetch: "pushUpload (w\<lparr>pullSecrets := f\<rparr>) = pushUpload w"
  by (simp add: fun_eq_iff pushUpload_def)

lemma pushConfirm_ignores_fetch: "pushConfirm (w\<lparr>pullSecrets := f\<rparr>) = pushConfirm w"
  by (simp add: fun_eq_iff pushConfirm_def pushUpload_ignores_fetch Let_def cong: if_cong)

lemma pushPreview_ignores_fetch: "pushPreview (w\<lparr>pullSecrets := f\<rparr>) = pushPreview w"
  by (simp add: fun_eq_iff pushPreview_def pushConfirm_ignores_fetch)

lemma push_start_ignores_fetch:
  "pushNoEnvFile (w\<lparr>pullSecrets := f\<rparr>) = pushNoEnvFile w"
  "chooseFile (w\<lparr>pullSecrets := f\<rparr>) = chooseFile w"
  "discoverEnvFiles (w\<lparr>pullSecrets := f\<rparr>) = discoverEnvFiles w"
  "gitignoreGuard (w\<lparr>pullSecrets := f\<rparr>) = gitignoreGuard w"
  by (simp_all add: fun_eq_iff pushNoEnvFile_def chooseFile_def discoverEnvFiles_def
      gitignoreGuard_def cong: if_cong)

lemma pushFetch_not_found:
  assumes "statusCode a = 404" and "pullSecrets w token repo env = Inl (APIError a)"
  shows "pushFetch w yes chosen env secrets repo token =
     emit [Spin ''Fetching current vault state...'', PullSecrets repo env]
       (pushPreview w yes chosen env secrets repo token Map.empty)"
  using assms by (simp add: pushFetch_def)

lemma pushFetch_empty_content:
  "pushFetch (w\<lparr>pullSecrets := (\<lambda>token repo env. Inr [])\<rparr>) yes chosen env secrets repo token =
     emit [Spin ''Fetching current vault state...'', PullSecrets repo env]
       (pushPreview w yes chosen env secrets repo token Map.empty)"
  by (simp add: pushFetch_def parseEnvContent_empty pushPreview_ignores_fetch)

lemma pushFetch_other_error:
  assumes "pullSecrets w token repo env = Inl err"
    and "\<forall>a. err = APIError a \<longrightarrow> statusCode a \<noteq> 404"
  shows "pushFetch w yes chosen env secrets repo token =
     ([Spin ''Fetching current vault state...'', PullSecrets repo env,
       UiError [Plain (errorString err)]], Some err)"
  using assms by (cases err) (simp_all add: pushFetch_def emit_def)

lemma runPush_not_found:
  assumes "statusCode a = 404" and "pullSecrets w = (\<lambda>token repo env. Inl (APIError a))"
  shows "runPush w fl = runPush (w\<lparr>pullSecrets := (\<lambda>token repo env. Inr [])\<rparr>) fl"
proof -
  let ?w = "w\<lparr>pullSecrets := (\<lambda>token repo env. Inr [])\<rparr>"
  have fetch: "pushFetch ?w yes chosen env secrets repo token =
      pushFetch w yes chosen env secrets repo token" for yes chosen env secrets repo token
    using assms by (simp add: pushFetch_empty_content pushFetch_not_found)
  have connect: "pushConnect ?w = pushConnect w"
    by (simp add: fun_eq_iff pushConnect_def fetch cong: sum.case_cong)
  have load: "pushLoad ?w = pushLoad w"
    by (simp add: fun_eq_iff pushLoad_def connect cong: sum.case_cong if_cong)
  show ?thesis
    by (simp add: runPush_def load push_start_ignores_fetch Let_def
        cong: if_cong prod.case_cong sum.case_cong)
qed

lemma runPull_fetch_error:
  assumes "detectRepo w = Inr repo" and "ensureLogin w = Inr token"
    and "pullSecrets w token repo (flagEnv fl) = Inl err"
  shows "runPull w fl =
     (Intro ''pull'' # gitignoreGuard w @
      [Step [Plain ''Environment: '', Value (flagEnv fl)], DetectRepo,
       Step [Plain ''Repository: '', Value repo], EnsureLogin,
       Track EventPull [(''repoFullName'', PString repo), (''environment'', PString (flagEnv fl))],
       Spin ''Downloading secrets...'', PullSecrets repo (flagEnv fl),
       Track EventError [(''command'', PString ''pull''), (''error'', PString (errorString err))],
       UiError [Plain (errorString err)]] @
      (case err of
         APIError a \<Rightarrow>
           if upgradeURL a \<noteq> [] then [Message [Plain ''Upgrade: '', Link (upgradeURL a)]] else []
       | _ \<Rightarrow> []),
      Some err)"
  using assms by (cases err) (simp_all add: runPull_def pullFetch_def emit_def)

text \<open>
  Claim C6. In a push, a fetch that fails with an API error of status 404 is taken for
  an empty vault: the run is the run against a vault whose content is the empty text,
  event for event, and goes on to the preview. Every other fetch error of a push ends
  it. In a pull every fetch error, 404 included, ends the run with that error before
  the local file is read or written; the error text is shown, and the upgrade URL of an
  API error, when it has one, is shown last, as it came.
\<close>

theorem fetch_not_found_is_empty_for_push_only:
  "(statusCode a = 404 \<and> pullSecrets w = (\<lambda>token repo env. Inl (APIError a)) \<longrightarrow>
      runPush w fl = runPush (w\<lparr>pullSecrets := (\<lambda>token repo env. Inr [])\<rparr>) fl) \<and>
   (statusCode a = 404 \<and> pullSecrets w token repo env = Inl (APIError a) \<longrightarrow>
      pushFetch w yes chosen env secrets repo token =
        emit [Spin ''Fetching current vault state...'', PullSecrets repo env]
          (pushPreview w yes chosen env secrets repo token Map.empty)) \<and>
   (pullSecrets w token repo env = Inl err \<and> (\<forall>b. err = APIError b \<longrightarrow> statusCode b \<noteq> 404) \<longrightarrow>
      pushFetch w yes chosen env secrets repo token =
        ([Spin ''Fetching current vault state...'', PullSecrets repo env,
          UiError [Plain (errorString err)]], Some err)) \<and>
   (detectRepo w = Inr repo \<and> ensureLogin w = Inr token \<and>
    pullSecrets w token repo (flagEnv fl) = Inl err \<longrightarrow>
      snd (runPull w fl) = Some err \<and>
      UiError [Plain (errorString err)] \<in> set (fst (runPull w fl)) \<and>
      (\<forall>e \<in> set (fst (runPull w fl)). \<not> isWrite e \<and> e \<noteq> ReadFile (filepathJoin w ''.'' (flagFile fl))) \<and>
      (\<forall>b. err = APIError b \<and> upgradeURL b \<noteq> [] \<longrightarrow>
         last (fst (runPull w fl)) = Message [Plain ''Upgrade: '', Link (upgradeURL b)]))"
proof -
  have push_run: "statusCode a = 404 \<and> pullSecrets w = (\<lambda>token repo env. Inl (APIError a)) \<longrightarrow>
      runPush w fl = runPush (w\<lparr>pullSecrets := (\<lambda>token repo env. Inr [])\<rparr>) fl"
    using runPush_not_found [of a w fl] by blast
  have push_404: "statusCode a = 404 \<and> pullSecrets w token repo env = Inl (APIError a) \<longrightarrow>
      pushFetch w yes chosen env secrets repo token =
        emit [Spin ''Fetching current vault state...'', PullSecrets repo env]
          (pushPreview w yes chosen env secrets repo token Map.empty)"
    using pushFetch_not_found [where a = a] by blast
  have push_other: "pullSecrets w token repo env = Inl err \<and>
      (\<forall>b. err = APIError b \<longrightarrow> statusCode b \<noteq> 404) \<longrightarrow>
      pushFetch w yes chosen env secrets repo token =
        ([Spin ''Fetching current vault state...'', PullSecrets repo env,
          UiError [Plain (errorString err)]], Some err)"
    using pushFetch_other_error [where err = err] by blast
  have pull: "detectRepo w = Inr repo \<and> ensureLogin w = Inr token \<and>
    pullSecrets w token repo (flagEnv fl) = Inl err \<longrightarrow>
      snd (runPull w fl) = Some err \<and>
      UiError [Plain (errorString err)] \<in> set (fst (runPull w fl)) \<and>
      (\<forall>e \<in> set (fst (runPull w fl)). \<not> isWrite e \<and> e \<noteq> ReadFile (filepathJoin w ''.'' (flagFile fl))) \<and>
      (\<forall>b. err = APIError b \<and> upgradeURL b \<noteq> [] \<longrightarrow>
         last (fst (runPull w fl)) = Message [Plain ''Upgrade: '', Link (upgradeURL b)])"
  proof
    assume h: "detectRepo w = Inr repo \<and> ensureLogin w = Inr token \<and>
      pullSecrets w token repo (flagEnv fl) = Inl err"
    have run: "runPull w fl =
     (Intro ''pull'' # gitignoreGuard w @
      [Step [Plain ''Environment: '', Value (flagEnv fl)], DetectRepo,
       Step [Plain ''Repository: '', Value repo], EnsureLogin,
       Track EventPull [(''repoFullName'', PString repo), (''environment'', PString (flagEnv fl))],
       Spin ''Downloading secrets...'', PullSecrets repo (flagEnv fl),
       Track EventError [(''command'', PString ''pull''), (''error'', PString (errorString err))],
       UiError [Plain (errorString err)]] @
      (case err of
         APIError a \<Rightarrow>
           if upgradeURL a \<noteq> [] then [Message [Plain ''Upgrade: '', Link (upgradeURL a)]] else []
       | _ \<Rightarrow> []),
      Some err)"
      using h by (intro runPull_fetch_error) blast+
    show "snd (runPull w fl) = Some err \<and>
      UiError [Plain (errorString err)] \<in> set (fst (runPull w fl)) \<and>
      (\<forall>e \<in> set (fst (runPull w fl)). \<not> isWrite e \<and> e \<noteq> ReadFile (filepathJoin w ''.'' (flagFile fl))) \<and>
      (\<forall>b. err = APIError b \<and> upgradeURL b \<noteq> [] \<longrightarrow>
         last (fst (runPull w fl)) = Message [Plain ''Upgrade: '', Link (upgradeURL b)])"
      unfolding run
      by (cases err) (auto dest!: gitignoreGuard_events)
  qed
  show ?thesis
    by (intro conjI) (rule push_run push_404 push_other pull)+
qed

theorem fetch_not_found_is_empty_for_push_only_witness:
  "statusCode notFound = 404 \<and>
   pullSecrets emptyVaultWorld = (\<lambda>token repo env. Inl (APIError notFound)) \<and>
   runPush emptyVaultWorld (pushDefaults\<lparr>flagYes := True\<rparr>) =
     runPush (emptyVaultWorld\<lparr>pullSecrets := (\<lambda>token repo env. Inr [])\<rparr>)
       (pushDefaults\<lparr>flagYes := True\<rparr>) \<and>
   snd (runPush emptyVaultWorld (pushDefaults\<lparr>flagYes := True\<rparr>)) = None \<and>
   detectRepo emptyVaultWorld = Inr ''acme/app'' \<and>
   ensureLogin emptyVaultWorld = Inr ''token'' \<and>
   pullSecrets emptyVaultWorld ''token'' ''acme/app'' (flagEnv pullDefaults) =
     Inl (APIError notFound) \<and>
   snd (runPull emptyVaultWorld pullDefaults) = Some (APIError notFound) \<and>
   UiError [Plain ''Vault not found''] \<in> set (fst (runPull emptyVaultWorld pullDefaults)) \<and>
   last (fst (runPull emptyVaultWorld pullDefaults)) =
     Message [Plain ''Upgrade: '', Link ''https://keyway.sh/upgrade'']"
proof -
  have s: "statusCode notFound = 404"
    by (simp add: notFound_def)
  have f: "pullSecrets emptyVaultWorld = (\<lambda>token repo env. Inl (APIError notFound))"
    by (simp add: emptyVaultWorld_def)
  have d: "detectRepo emptyVaultWorld = Inr ''acme/app''"
    and l: "ensureLogin emptyVaultWorld = Inr ''token''"
    and p: "pullSecrets emptyVaultWorld ''token'' ''acme/app'' (flagEnv pullDefaults) =
       Inl (APIError notFound)"
    by (simp_all add: emptyVaultWorld_def exampleWorld_def)
  have u: "upgradeURL notFound \<noteq> []" "upgradeURL notFound = ''https://keyway.sh/upgrade''"
    "errorString (APIError notFound) = ''Vault not found''"
    by (simp_all add: notFound_def)
  have goes_on: "snd (runPush emptyVaultWorld (pushDefaults\<lparr>flagYes := True\<rparr>)) = None"
    by (simp add: emptyVaultWorld_def notFound_def flow_eval codec_eval diff_eval)
  note push = fetch_not_found_is_empty_for_push_only
    [where a = notFound and w = emptyVaultWorld and fl = "pushDefaults\<lparr>flagYes := True\<rparr>",
      THEN conjunct1, rule_format, OF conjI, OF s f]
  note pull = fetch_not_found_is_empty_for_push_only
    [where w = emptyVaultWorld and fl = pullDefaults and err = "APIError notFound"
       and repo = "''acme/app''" and token = "''token''",
      THEN conjunct2, THEN conjunct2, THEN conjunct2, rule_format, OF conjI, OF d conjI, OF l p]
  from pull have r: "snd (runPull emptyVaultWorld pullDefaults) = Some (APIError notFound)"
    by (rule conjunct1)
  from pull u have e: "UiError [Plain ''Vault not found'']
      \<in> set (fst (runPull emptyVaultWorld pullDefaults))"
    by (elim conjE) simp
  from pull u have m: "last (fst (runPull emptyVaultWorld pullDefaults)) =
     Message [Plain ''Upgrade: '', Link ''https://keyway.sh/upgrade'']"
    by (elim conjE) simp
  show ?thesis
    by (intro conjI s f push goes_on d l p r e m)
qed

section \<open>The text a pull writes\<close>

lemma pullWrite_written:
  "WriteFile p c m \<in> set (fst (pullWrite w fl vc path ex ls vs diff)) \<Longrightarrow>
     p = path \<and> m = mode0600 \<and>
     c = (if flagForce fl \<or> \<not> ex then vc else mergeSecrets (mergeLocalVisit w) vc ls vs)"
  by (auto simp: pullWrite_def Let_def split: option.splits if_splits)

lemma pullConfirm_written:
  "WriteFile p c m \<in> set (fst (pullConfirm w fl vc path ex ls vs diff)) \<Longrightarrow>
     p = path \<and> m = mode0600 \<and>
     c = (if flagForce fl \<or> \<not> ex then vc else mergeSecrets (mergeLocalVisit w) vc ls vs)"
  by (auto simp: pullConfirm_def Let_def split: if_splits dest!: pullWrite_written)

lemma pullCompare_written:
  assumes "WriteFile p c m \<in> set (fst (pullCompare w fl vc))"
  shows "p = filepathJoin w ''.'' (flagFile fl) \<and> m = mode0600 \<and>
     c = (case readFile w (filepathJoin w ''.'' (flagFile fl)) of
            Inl err \<Rightarrow> vc
          | Inr data \<Rightarrow>
              if flagForce fl then vc
              else mergeSecrets (mergeLocalVisit w) vc (parseEnvContent data) (parseEnvContent vc))"
proof -
  let ?path = "filepathJoin w ''.'' (flagFile fl)"
  let ?ex = "case readFile w ?path of Inr data \<Rightarrow> True | Inl err \<Rightarrow> False"
  let ?ls = "case readFile w ?path of Inr data \<Rightarrow> parseEnvContent data | Inl err \<Rightarrow> Map.empty"
  let ?vs = "parseEnvContent vc"
  let ?diff = "calculateDiff (diffVaultVisit w) (diffLocalVisit w) ?ls ?vs"
  from assms have "WriteFile p c m \<in> set (fst (pullConfirm w fl vc ?path ?ex ?ls ?vs ?diff))"
    by (auto simp: pullCompare_def Let_def dest!: pullShowDiff_events)
  then have "p = ?path \<and> m = mode0600 \<and>
     c = (if flagForce fl \<or> \<not> ?ex then vc else mergeSecrets (mergeLocalVisit w) vc ?ls ?vs)"
    by (rule pullConfirm_written)
  then show ?thesis
    by (cases "readFile w ?path") auto
qed

lemma runPull_written:
  assumes "detectRepo w = Inr repo" and "ensureLogin w = Inr token"
    and "pullSecrets w token repo (flagEnv fl) = Inr vc"
    and "WriteFile p c m \<in> set (fst (runPull w fl))"
  shows "WriteFile p c m \<in> set (fst (pullCompare w fl vc))"
  using assms
  by (auto simp: runPull_def pullFetch_def dest!: gitignoreGuard_events)

lemma localOnlyEntries_set:
  assumes "ranges local lv"
  shows "distinct (map fst (localOnlyEntries lv vault))"
    and "set (localOnlyEntries lv vault) = {(k, v). local k = Some v \<and> vault k = None}"
  using assms ranges_entry [OF assms]
  by (auto simp: localOnlyEntries_def ranges_def distinct_map_filter)

text \<open>
  Claim C1. Whatever a pull writes, it writes to the file of \<^verbatim>\<open>--file\<close>, and the
  text is decided as follows. With \<^verbatim>\<open>--force\<close>, or when the local file could not be
  read, it is the vault's raw text, unchanged, so no local-only entry is kept. Otherwise
  it is the vault's raw text without its trailing line feeds, followed by a single line
  feed when no key is local only, and else by a line feed, a blank line, the comment
  \<^verbatim>\<open># Local variables (not in vault)\<close> and one line \<^verbatim>\<open>KEY=VALUE\<close> for each entry of
  the local map whose key the vault lacks, the value as the local map holds it, every
  line closed by a line feed.
\<close>

theorem runPull_writes_vault_text_or_merge:
  assumes "detectRepo w = Inr repo" and "ensureLogin w = Inr token"
    and "pullSecrets w token repo (flagEnv fl) = Inr vc"
    and "WriteFile p c m \<in> set (fst (runPull w fl))"
  shows
    "p = filepathJoin w ''.'' (flagFile fl) \<and>
     (flagForce fl \<or> (\<exists>err. readFile w p = Inl err) \<longrightarrow> c = vc) \<and>
     (\<forall>data. \<not> flagForce fl \<and> readFile w p = Inr data \<and>
        ranges (parseEnvContent data) (mergeLocalVisit w) \<longrightarrow>
        c = TrimRightNewline vc @
            (if localOnlyEntries (mergeLocalVisit w) (parseEnvContent vc) = [] then ''\<newline>''
             else ''\<newline>\<newline># Local variables (not in vault)\<newline>'' @
                  concat (map (\<lambda>(k, v). k @ ''='' @ v @ ''\<newline>'')
                            (localOnlyEntries (mergeLocalVisit w) (parseEnvContent vc)))) \<and>
        distinct (map fst (localOnlyEntries (mergeLocalVisit w) (parseEnvContent vc))) \<and>
        set (localOnlyEntries (mergeLocalVisit w) (parseEnvContent vc)) =
          {(k, v). parseEnvContent data k = Some v \<and> parseEnvContent vc k = None})"
proof -
  from assms have "WriteFile p c m \<in> set (fst (pullCompare w fl vc))"
    by (rule runPull_written)
  then have written: "p = filepathJoin w ''.'' (flagFile fl)"
    "c = (case readFile w (filepathJoin w ''.'' (flagFile fl)) of
            Inl err \<Rightarrow> vc
          | Inr data \<Rightarrow>
              if flagForce fl then vc
              else mergeSecrets (mergeLocalVisit w) vc (parseEnvContent data) (parseEnvContent vc))"
    by (auto dest!: pullCompare_written)
  have replace: "flagForce fl \<or> (\<exists>err. readFile w p = Inl err) \<longrightarrow> c = vc"
    unfolding written by (auto split: sum.splits)
  have merge: "\<forall>data. \<not> flagForce fl \<and> readFile w p = Inr data \<and>
        ranges (parseEnvContent data) (mergeLocalVisit w) \<longrightarrow>
        c = TrimRightNewline vc @
            (if localOnlyEntries (mergeLocalVisit w) (parseEnvContent vc) = [] then ''\<newline>''
             else ''\<newline>\<newline># Local variables (not in vault)\<newline>'' @
                  concat (map (\<lambda>(k, v). k @ ''='' @ v @ ''\<newline>'')
                            (localOnlyEntries (mergeLocalVisit w) (parseEnvContent vc)))) \<and>
        distinct (map fst (localOnlyEntries (mergeLocalVisit w) (parseEnvContent vc))) \<and>
        set (localOnlyEntries (mergeLocalVisit w) (parseEnvContent vc)) =
          {(k, v). parseEnvContent data k = Some v \<and> parseEnvContent vc k = None}"
  proof (intro allI impI)
    fix data
    assume h: "\<not> flagForce fl \<and> readFile w p = Inr data \<and>
        ranges (parseEnvContent data) (mergeLocalVisit w)"
    then have "c = mergeSecrets (mergeLocalVisit w) vc (parseEnvContent data) (parseEnvContent vc)"
      using written by simp
    with h show "c = TrimRightNewline vc @
            (if localOnlyEntries (mergeLocalVisit w) (parseEnvContent vc) = [] then ''\<newline>''
             else ''\<newline>\<newline># Local variables (not in vault)\<newline>'' @
                  concat (map (\<lambda>(k, v). k @ ''='' @ v @ ''\<newline>'')
                            (localOnlyEntries (mergeLocalVisit w) (parseEnvContent vc)))) \<and>
        distinct (map fst (localOnlyEntries (mergeLocalVisit w) (parseEnvContent vc))) \<and>
        set (localOnlyEntries (mergeLocalVisit w) (parseEnvContent vc)) =
          {(k, v). parseEnvContent data k = Some v \<and> parseEnvContent vc k = None}"
      by (simp only: mergeSecrets_text localOnlyEntries_set [of "parseEnvContent data"])
  qed
  from written(1) replace merge show ?thesis
    by (intro conjI)
qed

theorem runPull_writes_vault_text_or_merge_witness:
  "detectRepo exampleWorld = Inr ''acme/app'' \<and> ensureLogin exampleWorld = Inr ''token'' \<and>
   pullSecrets exampleWorld ''token'' ''acme/app'' ''development'' = Inr ''FOO=1\<newline>NEW=2\<newline>'' \<and>
   readFile exampleWorld ''.env'' = Inr ''FOO=1\<newline>LOCAL_ONLY=x\<newline>'' \<and>
   ranges (parseEnvContent ''FOO=1\<newline>LOCAL_ONLY=x\<newline>'') (mergeLocalVisit exampleWorld) \<and>
   WriteFile ''.env''
     ''FOO=1\<newline>NEW=2\<newline>\<newline># Local variables (not in vault)\<newline>LOCAL_ONLY=x\<newline>'' mode0600
     \<in> set (fst (runPull exampleWorld (pullDefaults\<lparr>flagYes := True\<rparr>))) \<and>
   ''FOO=1\<newline>NEW=2\<newline>\<newline># Local variables (not in vault)\<newline>LOCAL_ONLY=x\<newline>'' =
     TrimRightNewline ''FOO=1\<newline>NEW=2\<newline>'' @
       (if localOnlyEntries (mergeLocalVisit exampleWorld)
             (parseEnvContent ''FOO=1\<newline>NEW=2\<newline>'') = [] then ''\<newline>''
        else ''\<newline>\<newline># Local variables (not in vault)\<newline>'' @
             concat (map (\<lambda>(k, v). k @ ''='' @ v @ ''\<newline>'')
                       (localOnlyEntries (mergeLocalVisit exampleWorld)
                          (parseEnvContent ''FOO=1\<newline>NEW=2\<newline>'')))) \<and>
   set (localOnlyEntries (mergeLocalVisit exampleWorld)
          (parseEnvContent ''FOO=1\<newline>NEW=2\<newline>'')) =
     {(k, v). parseEnvContent ''FOO=1\<newline>LOCAL_ONLY=x\<newline>'' k = Some v \<and>
              parseEnvContent ''FOO=1\<newline>NEW=2\<newline>'' k = None} \<and>
   WriteFile ''.env'' ''FOO=1\<newline>NEW=2\<newline>'' mode0600
     \<in> set (fst (runPull exampleWorld (pullDefaults\<lparr>flagYes := True, flagForce := True\<rparr>)))"
proof -
  let ?merge = "pullDefaults\<lparr>flagYes := True\<rparr>"
  let ?force = "pullDefaults\<lparr>flagYes := True, flagForce := True\<rparr>"
  let ?merged = "''FOO=1\<newline>NEW=2\<newline>\<newline># Local variables (not in vault)\<newline>LOCAL_ONLY=x\<newline>''"
  have d: "detectRepo exampleWorld = Inr ''acme/app''"
    and l: "ensureLogin exampleWorld = Inr ''token''"
    and v: "pullSecrets exampleWorld ''token'' ''acme/app'' ''development'' = Inr ''FOO=1\<newline>NEW=2\<newline>''"
    and f: "readFile exampleWorld ''.env'' = Inr ''FOO=1\<newline>LOCAL_ONLY=x\<newline>''"
    by (simp_all add: exampleWorld_def)
  have r: "ranges (parseEnvContent ''FOO=1\<newline>LOCAL_ONLY=x\<newline>'') (mergeLocalVisit exampleWorld)"
    by (simp add: example_texts ranges_def exampleWorld_def)
  have wm: "WriteFile ''.env'' ?merged mode0600 \<in> set (fst (runPull exampleWorld ?merge))"
    by (simp add: flow_eval diff_eval example_texts newline_def)
  have wf: "WriteFile ''.env'' ''FOO=1\<newline>NEW=2\<newline>'' mode0600 \<in> set (fst (runPull exampleWorld ?force))"
    by (simp add: flow_eval diff_eval example_texts newline_def)
  have flg: "flagEnv ?merge = ''development''" "flagFile ?merge = ''.env''" "\<not> flagForce ?merge"
    "filepathJoin exampleWorld ''.'' ''.env'' = ''.env''"
    by (simp_all add: pullDefaults_def exampleWorld_def)
  note t = runPull_writes_vault_text_or_merge
    [of exampleWorld "''acme/app''" "''token''" ?merge "''FOO=1\<newline>NEW=2\<newline>''" "''.env''" ?merged
        mode0600, unfolded flg, OF d l v wm]
  from t f r flg(3) have shape: "?merged =
     TrimRightNewline ''FOO=1\<newline>NEW=2\<newline>'' @
       (if localOnlyEntries (mergeLocalVisit exampleWorld)
             (parseEnvContent ''FOO=1\<newline>NEW=2\<newline>'') = [] then ''\<newline>''
        else ''\<newline>\<newline># Local variables (not in vault)\<newline>'' @
             concat (map (\<lambda>(k, v). k @ ''='' @ v @ ''\<newline>'')
                       (localOnlyEntries (mergeLocalVisit exampleWorld)
                          (parseEnvContent ''FOO=1\<newline>NEW=2\<newline>''))))"
    and entries: "set (localOnlyEntries (mergeLocalVisit exampleWorld)
          (parseEnvContent ''FOO=1\<newline>NEW=2\<newline>'')) =
     {(k, v). parseEnvContent ''FOO=1\<newline>LOCAL_ONLY=x\<newline>'' k = Some v \<and>
              parseEnvContent ''FOO=1\<newline>NEW=2\<newline>'' k = None}"
    by blast+
  show ?thesis
    by (intro conjI d l v f r wm shape entries wf)
qed

end
